theory Spec2Isabelle
  imports Main "HOL-Library.Char_ord" "HOL-Library.List_Lexorder"
begin

section \<open>Data model of the local cron store\<close>

text \<open>
  Modelled from the spec: the type declarations of the cron module (its \<open>types\<close> file) are
  not part of the inspected sources, so the shapes below follow section 3 of the
  specification and the field accesses made by the local operations. Timestamps are integer
  milliseconds. A schedule is a tagged variant; the operations only ever inspect its tag.
  Three field names of the source are reserved words here and are renamed: the job's
  \<open>id\<close> is \<open>jobId\<close>, the payload's \<open>text\<close> is \<open>text_field\<close> and its \<open>to\<close> is \<open>to_field\<close>.
  The routing metadata is opaque to the operations and is carried as strings.
\<close>

datatype CronSchedule =
    At (atMs: int)
  | Every (intervalMs: int) (anchorMs: int)
  | Cron (expression: string) (timezone: string)

datatype CronRunStatus = Status_ok | Status_error | Status_skipped

text \<open>
  An own property of a JavaScript object literal: the key is absent, or it is present and
  holds a value or \<open>undefined\<close>. Reading an absent key yields \<open>undefined\<close> (\<open>None\<close>);
  the two differ only under object spread, where a present key overrides.
\<close>

datatype 'a ownprop = Absent | Present "'a option"

definition readProp :: "'a ownprop \<Rightarrow> 'a option" where
  "readProp p = (case p of Absent \<Rightarrow> None | Present v \<Rightarrow> v)"

definition spreadOver :: "'a option \<Rightarrow> 'a ownprop \<Rightarrow> 'a option" where
  "spreadOver base p = (case p of Absent \<Rightarrow> base | Present v \<Rightarrow> v)"

text \<open>
  The state block of a job. The stored state has every field optional; a partial state
  (in a create input or a patch) has the same keys as own properties.
\<close>

record ('i, 's, 'e) StateFields =
  nextRunAtMs :: 'i
  runningAtMs :: 'i
  lastRunAtMs :: 'i
  lastStatus :: 's
  lastError :: 'e
  lastDurationMs :: 'i

type_synonym CronJobState = "(int option, CronRunStatus option, string option) StateFields"
type_synonym CronJobStatePartial = "(int ownprop, CronRunStatus ownprop, string ownprop) StateFields"

text \<open>The agent-turn payload; in a patch the message is optional as well.\<close>

record 'm AgentTurnFields =
  message :: 'm
  model :: "string option"
  thinking :: "string option"
  timeoutSeconds :: "int option"
  deliver :: "bool option"
  channel :: "string option"
  to_field :: "string option"
  bestEffortDeliver :: "bool option"

datatype CronPayload =
    SystemEvent (text_field: string)
  | AgentTurn "string AgentTurnFields"

datatype CronPayloadPatch =
    SystemEventPatch "string option"
  | AgentTurnPatch "(string option) AgentTurnFields"

text \<open>
  The fields a caller supplies on create; the stored job adds the identifier and the two
  timestamps, and replaces the optional partial state by the stored state. The flags
  \<open>enabled\<close> and \<open>deleteAfterRun\<close> may be missing (\<open>None\<close>): create copies them as
  they are, and a stored job is read by truthiness, so that a job is enabled for every
  reader exactly when its flag is \<open>Some True\<close>.
\<close>

record 'st JobFields =
  name :: string
  description :: "string option"
  enabled :: "bool option"
  schedule :: CronSchedule
  payload :: CronPayload
  deleteAfterRun :: "bool option"
  sessionTarget :: string
  wakeMode :: string
  agentId :: "string option"
  isolation :: "string option"
  state :: 'st

type_synonym CronJobCreate = "(CronJobStatePartial option) JobFields"

record CronJob = "CronJobState JobFields" +
  jobId :: string
  createdAtMs :: int
  updatedAtMs :: int

text \<open>
  The tagged result of every operation: \<open>{ok: true, data}\<close> or \<open>{ok: false, error}\<close>.
\<close>

datatype 'a LocalCronResult = Ok (data: 'a) | Failed string

text \<open>
  A patch has every field optional; an omitted field and one holding \<open>undefined\<close> are
  treated alike by the update (\<open>!== undefined\<close>), so they are options. The payload patch
  carries its discriminator; the state patch is a partial state.
\<close>

record CronJobPatch =
  p_name :: "string option"
  p_description :: "string option"
  p_enabled :: "bool option"
  p_schedule :: "CronSchedule option"
  p_sessionTarget :: "string option"
  p_wakeMode :: "string option"
  p_agentId :: "string option"
  p_deleteAfterRun :: "bool option"
  p_isolation :: "string option"
  p_payload :: "CronPayloadPatch option"
  p_state :: "CronJobStatePartial option"

text \<open>The outcome reported to \<open>markJobCompleted\<close>.\<close>

record RunResult =
  status :: CronRunStatus
  error :: "string option"
  durationMs :: int

section \<open>The schedule evaluator\<close>

text \<open>
  The local operations import \<open>computeNextRunAtMs\<close> from the schedule module, which is
  not among the inspected sources. They are therefore modelled over an arbitrary evaluator:
  a function of the schedule and the reference time that returns the next fire time, or
  \<open>undefined\<close>, or raises (\<open>Inl\<close>, carrying the rendered exception).
\<close>

type_synonym Evaluator = "CronSchedule \<Rightarrow> int \<Rightarrow> string + int option"

text \<open>
  Modelled from the spec: \<open>computeNextRunAtMs\<close> of the absent schedule module, after
  section 4.1. A one-shot schedule yields its time while that is strictly after the
  reference; a periodic schedule yields the least \<open>anchorMs + k * intervalMs\<close> with
  \<open>k \<ge> 0\<close> strictly after the reference (the specification is silent on a non-positive
  interval, for which no fire time is produced here); a calendar schedule is delegated to
  the calendar engine \<open>cronNext\<close>, which may reject a malformed expression.
\<close>

definition computeNextRunAtMs ::
  "(string \<Rightarrow> string \<Rightarrow> int \<Rightarrow> string + int option) \<Rightarrow> Evaluator" where
  "computeNextRunAtMs cronNext sched referenceTimeMs =
     (case sched of
        At a \<Rightarrow> Inr (if a > referenceTimeMs then Some a else None)
      | Every iv anchor \<Rightarrow>
          Inr (if iv \<le> 0 then None
               else if referenceTimeMs < anchor then Some anchor
               else Some (anchor + ((referenceTimeMs - anchor) div iv + 1) * iv))
      | Cron e tz \<Rightarrow> cronNext e tz referenceTimeMs)"

text \<open>A calendar engine that accepts no expression, for closed evaluations.\<close>

definition rejectAllCron :: "string \<Rightarrow> string \<Rightarrow> int \<Rightarrow> string + int option" where
  "rejectAllCron e tz referenceTimeMs = Inl (''ScheduleError: '' @ e)"

text \<open>The helper of the local operations: the evaluator applied to the job's schedule.\<close>

definition computeNextRun ::
  "Evaluator \<Rightarrow> ('st, 'z) JobFields_scheme \<Rightarrow> int \<Rightarrow> string + int option" where
  "computeNextRun ev job nowMs = ev (schedule job) nowMs"

section \<open>Reading operations\<close>

text \<open>JavaScript truthiness of an optional number: \<open>undefined\<close> and \<open>0\<close> are falsy.\<close>

definition truthyNum :: "int option \<Rightarrow> bool" where
  "truthyNum v = (case v of None \<Rightarrow> False | Some n \<Rightarrow> n \<noteq> 0)"

text \<open>
  \<open>getDueJobs\<close>: the filter over the loaded collection, in the order of the source's
  early returns; \<open>now\<close> is the clock reading taken after the load.
\<close>

definition getDueJobs :: "int \<Rightarrow> CronJob list \<Rightarrow> CronJob list LocalCronResult" where
  "getDueJobs now jobs =
     Ok (filter (\<lambda>j.
           if enabled j \<noteq> Some True then False
           else if truthyNum (runningAtMs (state j)) then False
           else (case nextRunAtMs (state j) of
                   None \<Rightarrow> False
                 | Some next \<Rightarrow> now \<ge> next)) jobs)"

text \<open>
  \<open>listJobs\<close>: all jobs or the enabled ones, sorted by \<open>nextRunAtMs ?? 0\<close>. The array sort
  of the language is stable, as is \<open>sort_key\<close>.
\<close>

definition listJobs :: "bool \<Rightarrow> CronJob list \<Rightarrow> CronJob list LocalCronResult" where
  "listJobs includeDisabled jobs =
     (let js = (if includeDisabled then jobs else filter (\<lambda>j. enabled j = Some True) jobs)
      in Ok (sort_key (\<lambda>j. case nextRunAtMs (state j) of None \<Rightarrow> 0 | Some n \<Rightarrow> n) js))"

text \<open>\<open>getJob\<close>: the first stored job with the identifier.\<close>

definition getJob :: "string \<Rightarrow> CronJob list \<Rightarrow> CronJob LocalCronResult" where
  "getJob jid jobs =
     (case find (\<lambda>j. jobId j = jid) jobs of
        None \<Rightarrow> Failed (''Job not found: '' @ jid)
      | Some job \<Rightarrow> Ok job)"

section \<open>Mutating operations\<close>

text \<open>
  Each mutating operation is modelled from the point where the collection has been loaded.
  It returns its tagged result and the collection held by the store afterwards, which is
  the loaded one wherever the source returns without saving. The clock reading
  (\<open>Date.now()\<close>) and the fresh identifier (\<open>randomUUID()\<close>) are parameters. An exception
  of the evaluator is caught by the operation's handler and rendered into the result. The
  store module (path resolution, load and save) is not among the inspected sources; a
  fault raised by it, which the same handler would render, is outside the model.
\<close>

definition nullish :: "'a option \<Rightarrow> 'a option \<Rightarrow> 'a option" where
  "nullish a b = (case a of Some x \<Rightarrow> Some x | None \<Rightarrow> b)"

definition setIfDefined :: "'a option \<Rightarrow> 'a \<Rightarrow> 'a" where
  "setIfDefined p old = (case p of Some v \<Rightarrow> v | None \<Rightarrow> old)"

fun findIndex :: "('a \<Rightarrow> bool) \<Rightarrow> 'a list \<Rightarrow> nat option" where
  "findIndex p [] = None"
| "findIndex p (x # xs) = (if p x then Some 0 else map_option Suc (findIndex p xs))"

definition addJob ::
  "Evaluator \<Rightarrow> string \<Rightarrow> int \<Rightarrow> CronJobCreate \<Rightarrow> CronJob list
     \<Rightarrow> CronJob LocalCronResult \<times> CronJob list" where
  "addJob ev newId now input jobs =
     (case (if enabled input \<noteq> Some False then computeNextRun ev input now else Inr None) of
        Inl err \<Rightarrow> (Failed err, jobs)
      | Inr computed \<Rightarrow>
          (let st = (case state input of
                       None \<Rightarrow>
                         \<lparr>nextRunAtMs = computed, runningAtMs = None, lastRunAtMs = None,
                          lastStatus = None, lastError = None, lastDurationMs = None\<rparr>
                     | Some s \<Rightarrow>
                         \<lparr>nextRunAtMs = spreadOver computed (nextRunAtMs s),
                          runningAtMs = readProp (runningAtMs s),
                          lastRunAtMs = readProp (lastRunAtMs s),
                          lastStatus = readProp (lastStatus s),
                          lastError = readProp (lastError s),
                          lastDurationMs = readProp (lastDurationMs s)\<rparr>);
               job = \<lparr>name = name input, description = description input,
                      enabled = enabled input, schedule = schedule input,
                      payload = payload input, deleteAfterRun = deleteAfterRun input,
                      sessionTarget = sessionTarget input, wakeMode = wakeMode input,
                      agentId = agentId input, isolation = isolation input,
                      state = st, jobId = newId, createdAtMs = now, updatedAtMs = now\<rparr>
           in (Ok job, jobs @ [job])))"

definition applyPayloadPatch :: "CronPayloadPatch \<Rightarrow> CronPayload \<Rightarrow> CronPayload" where
  "applyPayloadPatch pp old =
     (case pp of
        SystemEventPatch t \<Rightarrow>
          SystemEvent (case t of
                         Some x \<Rightarrow> x
                       | None \<Rightarrow> (case old of SystemEvent ot \<Rightarrow> ot | AgentTurn _ \<Rightarrow> ''''))
      | AgentTurnPatch p \<Rightarrow>
          (let existing = (case old of
                             AgentTurn a \<Rightarrow>
                               \<lparr>message = Some (message a), model = model a,
                                thinking = thinking a, timeoutSeconds = timeoutSeconds a,
                                deliver = deliver a, channel = channel a,
                                to_field = to_field a,
                                bestEffortDeliver = bestEffortDeliver a\<rparr>
                           | SystemEvent _ \<Rightarrow>
                               \<lparr>message = None, model = None, thinking = None,
                                timeoutSeconds = None, deliver = None, channel = None,
                                to_field = None, bestEffortDeliver = None\<rparr>)
           in AgentTurn
                \<lparr>message = (case nullish (message p) (message existing) of
                               Some m \<Rightarrow> m | None \<Rightarrow> ''''),
                 model = nullish (model p) (model existing),
                 thinking = nullish (thinking p) (thinking existing),
                 timeoutSeconds = nullish (timeoutSeconds p) (timeoutSeconds existing),
                 deliver = nullish (deliver p) (deliver existing),
                 channel = nullish (channel p) (channel existing),
                 to_field = nullish (to_field p) (to_field existing),
                 bestEffortDeliver =
                   nullish (bestEffortDeliver p) (bestEffortDeliver existing)\<rparr>))"

definition applyStatePatch :: "CronJobStatePartial \<Rightarrow> CronJobState \<Rightarrow> CronJobState" where
  "applyStatePatch p s =
     \<lparr>nextRunAtMs = nullish (readProp (nextRunAtMs p)) (nextRunAtMs s),
      runningAtMs = nullish (readProp (runningAtMs p)) (runningAtMs s),
      lastRunAtMs = nullish (readProp (lastRunAtMs p)) (lastRunAtMs s),
      lastStatus = nullish (readProp (lastStatus p)) (lastStatus s),
      lastError = nullish (readProp (lastError p)) (lastError s),
      lastDurationMs = nullish (readProp (lastDurationMs p)) (lastDurationMs s)\<rparr>"

text \<open>The field assignments of \<open>updateJob\<close> up to the bump of \<open>updatedAtMs\<close>.\<close>

definition applyPatch :: "int \<Rightarrow> CronJobPatch \<Rightarrow> CronJob \<Rightarrow> CronJob" where
  "applyPatch now patch job =
     job\<lparr>name := setIfDefined (p_name patch) (name job),
         description := nullish (p_description patch) (description job),
         enabled := nullish (p_enabled patch) (enabled job),
         schedule := setIfDefined (p_schedule patch) (schedule job),
         sessionTarget := setIfDefined (p_sessionTarget patch) (sessionTarget job),
         wakeMode := setIfDefined (p_wakeMode patch) (wakeMode job),
         agentId := nullish (p_agentId patch) (agentId job),
         deleteAfterRun := nullish (p_deleteAfterRun patch) (deleteAfterRun job),
         isolation := nullish (p_isolation patch) (isolation job),
         payload := (case p_payload patch of
                       None \<Rightarrow> payload job
                     | Some pp \<Rightarrow> applyPayloadPatch pp (payload job)),
         state := (case p_state patch of
                     None \<Rightarrow> state job
                   | Some sp \<Rightarrow> applyStatePatch sp (state job)),
         updatedAtMs := now\<rparr>"

definition updateJob ::
  "Evaluator \<Rightarrow> int \<Rightarrow> string \<Rightarrow> CronJobPatch \<Rightarrow> CronJob list
     \<Rightarrow> CronJob LocalCronResult \<times> CronJob list" where
  "updateJob ev now jid patch jobs =
     (case findIndex (\<lambda>j. jobId j = jid) jobs of
        None \<Rightarrow> (Failed (''Job not found: '' @ jid), jobs)
      | Some jobIndex \<Rightarrow>
          (let job = applyPatch now patch (jobs ! jobIndex)
           in if enabled job = Some True \<and> (p_schedule patch \<noteq> None \<or> p_enabled patch \<noteq> None) then
                (case computeNextRun ev job now of
                   Inl err \<Rightarrow> (Failed err, jobs)
                 | Inr next \<Rightarrow>
                     (let job' = job\<lparr>state := (state job)\<lparr>nextRunAtMs := next\<rparr>\<rparr>
                      in (Ok job', jobs[jobIndex := job'])))
              else if enabled job \<noteq> Some True then
                (let job' = job\<lparr>state := (state job)\<lparr>nextRunAtMs := None\<rparr>\<rparr>
                 in (Ok job', jobs[jobIndex := job']))
              else (Ok job, jobs[jobIndex := job])))"

definition removeJob :: "string \<Rightarrow> CronJob list \<Rightarrow> bool LocalCronResult \<times> CronJob list" where
  "removeJob jid jobs =
     (let jobs' = filter (\<lambda>j. jobId j \<noteq> jid) jobs;
          removed = (length jobs' < length jobs)
      in (Ok removed, if removed then jobs' else jobs))"

definition emptyStatePartial :: CronJobStatePartial where
  "emptyStatePartial =
     \<lparr>nextRunAtMs = Absent, runningAtMs = Absent, lastRunAtMs = Absent,
      lastStatus = Absent, lastError = Absent, lastDurationMs = Absent\<rparr>"

definition emptyPatch :: CronJobPatch where
  "emptyPatch =
     \<lparr>p_name = None, p_description = None, p_enabled = None, p_schedule = None,
      p_sessionTarget = None, p_wakeMode = None, p_agentId = None, p_deleteAfterRun = None,
      p_isolation = None, p_payload = None, p_state = None\<rparr>"

text \<open>
  \<open>markJobRunning\<close> reads the clock for the patch (\<open>patchNow\<close>) and delegates to
  \<open>updateJob\<close>, which reads it again (\<open>now\<close>).
\<close>

definition markJobRunning ::
  "Evaluator \<Rightarrow> int \<Rightarrow> int \<Rightarrow> string \<Rightarrow> CronJob list
     \<Rightarrow> CronJob LocalCronResult \<times> CronJob list" where
  "markJobRunning ev patchNow now jid jobs =
     updateJob ev now jid
       (emptyPatch\<lparr>p_state := Some (emptyStatePartial\<lparr>runningAtMs := Present (Some patchNow)\<rparr>)\<rparr>)
       jobs"

definition markJobCompleted ::
  "Evaluator \<Rightarrow> int \<Rightarrow> string \<Rightarrow> RunResult \<Rightarrow> CronJob list
     \<Rightarrow> CronJob LocalCronResult \<times> CronJob list" where
  "markJobCompleted ev now jid result jobs =
     (case findIndex (\<lambda>j. jobId j = jid) jobs of
        None \<Rightarrow> (Failed (''Job not found: '' @ jid), jobs)
      | Some jobIndex \<Rightarrow>
          (let job0 = jobs ! jobIndex;
               job = job0\<lparr>state := (state job0)\<lparr>runningAtMs := None,
                                                 lastRunAtMs := Some now,
                                                 lastStatus := Some (status result),
                                                 lastError := error result,
                                                 lastDurationMs := Some (durationMs result)\<rparr>,
                          updatedAtMs := now\<rparr>;
               isOneShot = (case schedule job of At _ \<Rightarrow> True | _ \<Rightarrow> False)
           in if isOneShot \<and> status result = Status_ok then
                (if deleteAfterRun job = Some True then
                   (Ok job, filter (\<lambda>j. jobId j \<noteq> jid) jobs)
                 else
                   (let job' = job\<lparr>enabled := Some False,
                                     state := (state job)\<lparr>nextRunAtMs := None\<rparr>\<rparr>
                    in (Ok job', jobs[jobIndex := job'])))
              else if enabled job = Some True then
                (case computeNextRun ev job now of
                   Inl err \<Rightarrow> (Failed err, jobs)
                 | Inr next \<Rightarrow>
                     (let job' = job\<lparr>state := (state job)\<lparr>nextRunAtMs := next\<rparr>\<rparr>
                      in (Ok job', jobs[jobIndex := job'])))
              else (Ok job, jobs[jobIndex := job])))"

section \<open>Reference notions and sample data\<close>

text \<open>
  The ordering the specification asks of the due list: ascending by \<open>nextRunAtMs\<close>, ties
  broken by identifier. It is written after the specification's words, to be compared with
  what \<open>getDueJobs\<close> returns.
\<close>

definition dueOrderedSpec :: "CronJob list \<Rightarrow> bool" where
  "dueOrderedSpec js =
     sorted_wrt (\<lambda>a b. case (nextRunAtMs (state a), nextRunAtMs (state b)) of
                          (Some x, Some y) \<Rightarrow> x < y \<or> (x = y \<and> jobId a \<le> jobId b)
                        | _ \<Rightarrow> True) js"

text \<open>
  The payload a patch determines on its own: its supplied sub-fields, the empty string for
  an omitted text or message, nothing for every other omitted sub-field.
\<close>

definition payloadFromPatchAlone :: "CronPayloadPatch \<Rightarrow> CronPayload" where
  "payloadFromPatchAlone pp =
     (case pp of
        SystemEventPatch t \<Rightarrow> SystemEvent (case t of Some x \<Rightarrow> x | None \<Rightarrow> '''')
      | AgentTurnPatch p \<Rightarrow>
          AgentTurn \<lparr>message = (case message p of Some m \<Rightarrow> m | None \<Rightarrow> ''''),
                     model = model p, thinking = thinking p,
                     timeoutSeconds = timeoutSeconds p, deliver = deliver p,
                     channel = channel p, to_field = to_field p,
                     bestEffortDeliver = bestEffortDeliver p\<rparr>)"

definition sameKind :: "CronPayloadPatch \<Rightarrow> CronPayload \<Rightarrow> bool" where
  "sameKind pp old =
     (case (pp, old) of
        (SystemEventPatch _, SystemEvent _) \<Rightarrow> True
      | (AgentTurnPatch _, AgentTurn _) \<Rightarrow> True
      | _ \<Rightarrow> False)"

text \<open>The invariant of section 3: a disabled job carries no next run time.\<close>

definition nextRunOnlyWhileEnabled :: "CronJob list \<Rightarrow> bool" where
  "nextRunOnlyWhileEnabled jobs =
     list_all (\<lambda>j. enabled j = Some True \<or> nextRunAtMs (state j) = None) jobs"

text \<open>Sample jobs and inputs for closed evaluations.\<close>

definition sampleJob :: "string \<Rightarrow> CronSchedule \<Rightarrow> int option \<Rightarrow> CronJob" where
  "sampleJob jid sched next =
     \<lparr>name = ''sample'', description = None, enabled = Some True, schedule = sched,
      payload = SystemEvent ''tick'', deleteAfterRun = None, sessionTarget = ''main'',
      wakeMode = ''now'', agentId = None, isolation = None,
      state = \<lparr>nextRunAtMs = next, runningAtMs = None, lastRunAtMs = None,
               lastStatus = None, lastError = None, lastDurationMs = None\<rparr>,
      jobId = jid, createdAtMs = 0, updatedAtMs = 0\<rparr>"

definition sampleInput :: "bool option \<Rightarrow> CronSchedule \<Rightarrow> CronJobStatePartial option \<Rightarrow> CronJobCreate" where
  "sampleInput en sched st =
     \<lparr>name = ''sample'', description = None, enabled = en, schedule = sched,
      payload = SystemEvent ''tick'', deleteAfterRun = None, sessionTarget = ''main'',
      wakeMode = ''now'', agentId = None, isolation = None, state = st\<rparr>"

definition okResult :: "int \<Rightarrow> RunResult" where
  "okResult d = \<lparr>status = Status_ok, error = None, durationMs = d\<rparr>"

text \<open>
  Scenario A of the specification: a job with a periodic schedule of 60000 ms anchored at 0
  is created at time 0, marked running at 60000 and completed successfully at 60500.
\<close>

definition scenarioA_created :: "Evaluator \<Rightarrow> CronJob list" where
  "scenarioA_created ev = snd (addJob ev ''X'' 0 (sampleInput (Some True) (Every 60000 0) None) [])"

definition scenarioA_running :: "Evaluator \<Rightarrow> CronJob list" where
  "scenarioA_running ev = snd (markJobRunning ev 60000 60000 ''X'' (scenarioA_created ev))"

definition scenarioA_completed :: "Evaluator \<Rightarrow> CronJob LocalCronResult \<times> CronJob list" where
  "scenarioA_completed ev = markJobCompleted ev 60500 ''X'' (okResult 500) (scenarioA_running ev)"

text \<open>A create input that is disabled and carries a calendar expression no engine accepts.\<close>

definition malformedCronInput :: CronJobCreate where
  "malformedCronInput = sampleInput (Some False) (Cron ''every now and then'' ''UTC'') None"

text \<open>An agent-turn patch that supplies the model only.\<close>

definition modelOnlyPatch :: CronPayloadPatch where
  "modelOnlyPatch =
     AgentTurnPatch \<lparr>message = None, model = Some ''small'', thinking = None,
                     timeoutSeconds = None, deliver = None, channel = None,
                     to_field = None, bestEffortDeliver = None\<rparr>"

section \<open>Sequences of operations and their interleavings\<close>

text \<open>
  A call of one of the five mutating operations, with the clock readings and the fresh
  identifier it will see. \<open>applyOp\<close> is the store after the call has run on its own;
  \<open>runOps\<close> runs calls one after another.
\<close>

datatype CronOp =
    OpAdd string int CronJobCreate
  | OpUpdate int string CronJobPatch
  | OpRemove string
  | OpMarkRunning int int string
  | OpMarkCompleted int string RunResult

fun applyOp :: "Evaluator \<Rightarrow> CronOp \<Rightarrow> CronJob list \<Rightarrow> CronJob list" where
  "applyOp ev (OpAdd newId now input) jobs = snd (addJob ev newId now input jobs)"
| "applyOp ev (OpUpdate now jid patch) jobs = snd (updateJob ev now jid patch jobs)"
| "applyOp ev (OpRemove jid) jobs = snd (removeJob jid jobs)"
| "applyOp ev (OpMarkRunning patchNow now jid) jobs = snd (markJobRunning ev patchNow now jid jobs)"
| "applyOp ev (OpMarkCompleted now jid result) jobs = snd (markJobCompleted ev now jid result jobs)"

definition runOps :: "Evaluator \<Rightarrow> CronOp list \<Rightarrow> CronJob list \<Rightarrow> CronJob list" where
  "runOps ev ops jobs = fold (applyOp ev) ops jobs"

text \<open>
  The calls that cannot take the running mark off the job \<open>jid\<close>: a create (its identifier
  is fresh), any remove, a completion of another job, and an update or a marking that does
  not write the timestamp \<open>0\<close> into \<open>runningAtMs\<close> of that job.
\<close>

fun leavesRunningMark :: "string \<Rightarrow> CronOp \<Rightarrow> bool" where
  "leavesRunningMark jid (OpAdd newId now input) = (newId \<noteq> jid)"
| "leavesRunningMark jid (OpUpdate now i patch) =
     (i \<noteq> jid \<or> (case p_state patch of
                     None \<Rightarrow> True
                   | Some sp \<Rightarrow> readProp (runningAtMs sp) \<noteq> Some 0))"
| "leavesRunningMark jid (OpRemove i) = True"
| "leavesRunningMark jid (OpMarkRunning patchNow now i) = (i \<noteq> jid \<or> patchNow \<noteq> 0)"
| "leavesRunningMark jid (OpMarkCompleted now i result) = (i \<noteq> jid)"

definition runningMarked :: "string \<Rightarrow> CronJob list \<Rightarrow> bool" where
  "runningMarked jid jobs =
     list_all (\<lambda>j. jobId j \<noteq> jid \<or> truthyNum (runningAtMs (state j))) jobs"

text \<open>
  The operations take no lock: each awaits the load of the collection, modifies the loaded
  copy and awaits the save. Between callers the two store accesses are the atomic steps.
  \<open>savedStore\<close> is what a call writes back from the snapshot it loaded, or \<open>None\<close> on the
  paths that return without saving (an error result, or a remove that removed nothing).
\<close>

fun savedStore :: "Evaluator \<Rightarrow> CronOp \<Rightarrow> CronJob list \<Rightarrow> CronJob list option" where
  "savedStore ev (OpAdd newId now input) snap =
     (case addJob ev newId now input snap of (Ok _, js) \<Rightarrow> Some js | (Failed _, _) \<Rightarrow> None)"
| "savedStore ev (OpUpdate now jid patch) snap =
     (case updateJob ev now jid patch snap of (Ok _, js) \<Rightarrow> Some js | (Failed _, _) \<Rightarrow> None)"
| "savedStore ev (OpRemove jid) snap =
     (case removeJob jid snap of (Ok removed, js) \<Rightarrow> (if removed then Some js else None)
                               | (Failed _, _) \<Rightarrow> None)"
| "savedStore ev (OpMarkRunning patchNow now jid) snap =
     (case markJobRunning ev patchNow now jid snap of
        (Ok _, js) \<Rightarrow> Some js | (Failed _, _) \<Rightarrow> None)"
| "savedStore ev (OpMarkCompleted now jid result) snap =
     (case markJobCompleted ev now jid result snap of
        (Ok _, js) \<Rightarrow> Some js | (Failed _, _) \<Rightarrow> None)"

text \<open>
  The shared document and, per caller, the snapshot it has loaded. A caller's \<open>Load\<close> reads
  the document; its \<open>Save\<close> completes the call \<open>op\<close> on the snapshot and writes the result.
\<close>

datatype StoreEvent = Load nat | Save nat CronOp

record World =
  document :: "CronJob list"
  snapshot :: "nat \<Rightarrow> CronJob list option"

fun stepEvent :: "Evaluator \<Rightarrow> StoreEvent \<Rightarrow> World \<Rightarrow> World" where
  "stepEvent ev (Load p) w = w\<lparr>snapshot := (snapshot w)(p := Some (document w))\<rparr>"
| "stepEvent ev (Save p op) w =
     (case snapshot w p of
        None \<Rightarrow> w
      | Some snap \<Rightarrow>
          (case savedStore ev op snap of
             None \<Rightarrow> w\<lparr>snapshot := (snapshot w)(p := None)\<rparr>
           | Some js \<Rightarrow> w\<lparr>document := js, snapshot := (snapshot w)(p := None)\<rparr>))"

definition runEvents :: "Evaluator \<Rightarrow> StoreEvent list \<Rightarrow> World \<Rightarrow> World" where
  "runEvents ev es w = fold (stepEvent ev) es w"

definition initialWorld :: "CronJob list \<Rightarrow> World" where
  "initialWorld jobs = \<lparr>document = jobs, snapshot = (\<lambda>p. None)\<rparr>"

text \<open>The schedule in which no two calls overlap: each caller loads and saves in one go.\<close>

definition serialSchedule :: "CronOp list \<Rightarrow> StoreEvent list" where
  "serialSchedule ops = concat (map (\<lambda>(p, op). [Load p, Save p op]) (enumerate 0 ops))"

text \<open>A disabled create input whose state object carries a next run time.\<close>

definition disabledWithNextRun :: CronJobCreate where
  "disabledWithNextRun =
     sampleInput (Some False) (Every 1000 0) (Some (emptyStatePartial\<lparr>nextRunAtMs := Present (Some 5)\<rparr>))"

text \<open>Two create calls, for the interleaving of concurrent callers.\<close>

definition addA :: CronOp where
  "addA = OpAdd ''a'' 0 (sampleInput (Some True) (Every 1000 0) None)"

definition addB :: CronOp where
  "addB = OpAdd ''b'' 0 (sampleInput (Some True) (Every 1000 0) None)"

text \<open>
  Two patches: one that writes the timestamp \<open>0\<close> into \<open>runningAtMs\<close>, one that only
  renames the job.
\<close>

definition zeroRunningPatch :: CronJobPatch where
  "zeroRunningPatch =
     emptyPatch\<lparr>p_state := Some (emptyStatePartial\<lparr>runningAtMs := Present (Some 0)\<rparr>)\<rparr>"

definition renamePatch :: CronJobPatch where
  "renamePatch = emptyPatch\<lparr>p_name := Some ''renamed''\<rparr>"

text \<open>
  The store accesses that cannot take the running mark off the job \<open>jid\<close>, and the worlds
  in which the document and every loaded snapshot carry the mark.
\<close>

fun eventLeavesMark :: "string \<Rightarrow> StoreEvent \<Rightarrow> bool" where
  "eventLeavesMark jid (Load p) = True"
| "eventLeavesMark jid (Save p op) = leavesRunningMark jid op"

definition worldMarked :: "string \<Rightarrow> World \<Rightarrow> bool" where
  "worldMarked jid w =
     (runningMarked jid (document w)
      \<and> (\<forall>p snap. snapshot w p = Some snap \<longrightarrow> runningMarked jid snap))"

section \<open>Auxiliary facts\<close>


lemma findIndex_SomeD:
  "findIndex p xs = Some i \<Longrightarrow> i < length xs \<and> p (xs ! i) \<and> (\<forall>k<i. \<not> p (xs ! k))"
proof (induction xs arbitrary: i)
  case Nil
  then show ?case by simp
next
  case (Cons x xs)
  show ?case
  proof (cases "p x")
    case True
    with Cons.prems show ?thesis by simp
  next
    case False
    with Cons.prems obtain k where k: "findIndex p xs = Some k" "i = Suc k"
      by auto
    from Cons.IH[OF k(1)] False k(2) show ?thesis
      by (auto simp: less_Suc_eq_0_disj)
  qed
qed

lemma find_findIndex:
  "find p xs = Some x \<Longrightarrow> \<exists>i. findIndex p xs = Some i \<and> xs ! i = x"
  by (induction xs) (auto split: if_splits)

lemma find_update_first:
  "findIndex p xs = Some i \<Longrightarrow> p y \<Longrightarrow> find p (xs[i := y]) = Some y"
  by (induction xs arbitrary: i) (auto split: if_splits)

lemma find_filter_out: "find p (filter (\<lambda>x. \<not> p x) xs) = None"
  by (induction xs) auto

lemma getJob_OkD:
  "getJob jid jobs = Ok job \<Longrightarrow>
     \<exists>i. findIndex (\<lambda>j. jobId j = jid) jobs = Some i \<and> jobs ! i = job \<and> i < length jobs \<and> jobId job = jid"
  unfolding getJob_def
  by (auto split: option.splits dest!: find_findIndex dest: findIndex_SomeD)

lemma getJob_update:
  "findIndex (\<lambda>j. jobId j = jid) jobs = Some i \<Longrightarrow> jobId y = jid \<Longrightarrow> getJob jid (jobs[i := y]) = Ok y"
  unfolding getJob_def by (simp add: find_update_first[where p="\<lambda>j. jobId j = jid"])


lemma set_listJobs_all: "set (data (listJobs True jobs)) = set jobs"
  by (simp add: listJobs_def)

lemma updateJob_OkD:
  assumes "findIndex (\<lambda>j. jobId j = jid) jobs = Some i"
    and "updateJob ev now jid patch jobs = (Ok job', jobs')"
  shows "\<exists>st. job' = (applyPatch now patch (jobs ! i))\<lparr>state := st\<rparr> \<and> jobs' = jobs[i := job']"
  using assms
  by (auto simp: updateJob_def Let_def split: if_splits sum.splits intro: exI[where x="state (applyPatch now patch (jobs ! i))"])

lemma scenarioA_running_eq:
  "scenarioA_running (computeNextRunAtMs cronNext) =
     [(sampleJob ''X'' (Every 60000 0) (Some 60000))
        \<lparr>state := (state (sampleJob ''X'' (Every 60000 0) (Some 60000)))\<lparr>runningAtMs := Some 60000\<rparr>,
         updatedAtMs := 60000\<rparr>]"
  by (simp add: scenarioA_running_def scenarioA_created_def addJob_def markJobRunning_def
      updateJob_def applyPatch_def applyStatePatch_def emptyPatch_def emptyStatePartial_def
      sampleInput_def sampleJob_def computeNextRun_def computeNextRunAtMs_def
      nullish_def setIfDefined_def readProp_def Let_def)

lemma scenarioA_completed_next:
  "nextRunAtMs (state (data (fst (scenarioA_completed (computeNextRunAtMs cronNext))))) = Some 120000"
  by (simp add: scenarioA_completed_def scenarioA_running_eq markJobCompleted_def okResult_def
      sampleJob_def computeNextRun_def computeNextRunAtMs_def Let_def)

lemma nullish_None: "nullish a None = a"
  by (cases a) (simp_all add: nullish_def)

lemma applyPayloadPatch_other_kind:
  "\<not> sameKind pp old \<Longrightarrow> applyPayloadPatch pp old = payloadFromPatchAlone pp"
  by (cases pp; cases old)
     (simp_all add: sameKind_def applyPayloadPatch_def payloadFromPatchAlone_def nullish_None
        Let_def split: option.splits)

lemma applyPayloadPatch_systemEvent:
  "applyPayloadPatch (SystemEventPatch t) (SystemEvent old)
     = SystemEvent (case t of None \<Rightarrow> old | Some x \<Rightarrow> x)"
  by (simp add: applyPayloadPatch_def split: option.splits)

lemma applyPayloadPatch_agentTurn:
  "\<exists>a'. applyPayloadPatch (AgentTurnPatch p) (AgentTurn a) = AgentTurn a'
     \<and> message a' = (case message p of None \<Rightarrow> message a | Some v \<Rightarrow> v)
     \<and> model a' = (case model p of None \<Rightarrow> model a | Some v \<Rightarrow> Some v)
     \<and> thinking a' = (case thinking p of None \<Rightarrow> thinking a | Some v \<Rightarrow> Some v)
     \<and> timeoutSeconds a' = (case timeoutSeconds p of None \<Rightarrow> timeoutSeconds a | Some v \<Rightarrow> Some v)
     \<and> deliver a' = (case deliver p of None \<Rightarrow> deliver a | Some v \<Rightarrow> Some v)
     \<and> channel a' = (case channel p of None \<Rightarrow> channel a | Some v \<Rightarrow> Some v)
     \<and> to_field a' = (case to_field p of None \<Rightarrow> to_field a | Some v \<Rightarrow> Some v)
     \<and> bestEffortDeliver a'
           = (case bestEffortDeliver p of None \<Rightarrow> bestEffortDeliver a | Some v \<Rightarrow> Some v)"
  by (simp add: applyPayloadPatch_def nullish_def Let_def split: option.splits)

lemma updateJob_disable:
  assumes "findIndex (\<lambda>j. jobId j = jid) jobs = Some i"
  shows "\<exists>j1. updateJob ev now jid (emptyPatch\<lparr>p_enabled := Some False\<rparr>) jobs = (Ok j1, jobs[i := j1])
            \<and> jobId j1 = jobId (jobs ! i) \<and> schedule j1 = schedule (jobs ! i)
            \<and> enabled j1 = Some False \<and> nextRunAtMs (state j1) = None"
  using assms
  by (simp add: updateJob_def applyPatch_def emptyPatch_def setIfDefined_def nullish_def Let_def)

lemma updateJob_enable:
  assumes "findIndex (\<lambda>j. jobId j = jid) jobs = Some i"
    and "ev (schedule (jobs ! i)) now = Inr next"
  shows "\<exists>j2. updateJob ev now jid (emptyPatch\<lparr>p_enabled := Some True\<rparr>) jobs = (Ok j2, jobs[i := j2])
            \<and> jobId j2 = jobId (jobs ! i) \<and> schedule j2 = schedule (jobs ! i)
            \<and> enabled j2 = Some True \<and> nextRunAtMs (state j2) = next"
  using assms
  by (simp add: updateJob_def applyPatch_def emptyPatch_def setIfDefined_def nullish_def Let_def
      computeNextRun_def)

text \<open>
  The periodic case of the evaluator meets the specification's wording: for a positive
  interval it returns the least \<open>anchorMs + k * intervalMs\<close>, \<open>k \<ge> 0\<close>, strictly after the
  reference time.
\<close>

lemma every_step_bounds:
  fixes iv d :: int
  assumes "0 < iv"
  shows "d < (d div iv + 1) * iv" and "0 \<le> m \<Longrightarrow> d < m * iv \<Longrightarrow> d div iv + 1 \<le> m"
proof -
  have "d mod iv < iv" using assms by simp
  moreover have "(d div iv + 1) * iv = iv * (d div iv) + iv" by (simp add: algebra_simps)
  moreover have "iv * (d div iv) + d mod iv = d" by (rule mult_div_mod_eq)
  ultimately show "d < (d div iv + 1) * iv" by linarith
next
  assume m: "0 \<le> m" "d < m * iv"
  have "d div iv < m"
  proof (rule ccontr)
    assume "\<not> d div iv < m"
    then have "m * iv \<le> (d div iv) * iv"
      using assms by (intro mult_right_mono) simp_all
    moreover have "0 \<le> d mod iv" using assms by simp
    moreover have "(d div iv) * iv + d mod iv = d" by (rule div_mult_mod_eq)
    ultimately have "m * iv \<le> d" by linarith
    with m(2) show False by simp
  qed
  then show "d div iv + 1 \<le> m" by simp
qed

lemma computeNextRunAtMs_every_least:
  assumes "0 < iv"
  shows "\<exists>k\<ge>0. computeNextRunAtMs cronNext (Every iv anchor) referenceTimeMs
                  = Inr (Some (anchor + k * iv))
              \<and> referenceTimeMs < anchor + k * iv
              \<and> (\<forall>m\<ge>0. referenceTimeMs < anchor + m * iv \<longrightarrow> k \<le> m)"
proof (cases "referenceTimeMs < anchor")
  case True
  with assms show ?thesis
    by (intro exI[of _ 0]) (simp add: computeNextRunAtMs_def)
next
  case False
  let ?d = "referenceTimeMs - anchor"
  let ?k = "?d div iv + 1"
  from False assms have k0: "0 \<le> ?k" by (simp add: pos_imp_zdiv_nonneg_iff)
  have gt: "referenceTimeMs < anchor + ?k * iv"
    using every_step_bounds(1)[OF assms, of ?d] by simp
  have least: "?k \<le> m" if "0 \<le> m" "referenceTimeMs < anchor + m * iv" for m
    using every_step_bounds(2)[OF assms, of m ?d] that by simp
  from False assms have "computeNextRunAtMs cronNext (Every iv anchor) referenceTimeMs
                  = Inr (Some (anchor + ?k * iv))"
    by (simp add: computeNextRunAtMs_def)
  with k0 gt least show ?thesis by blast
qed

lemma list_all_update:
  "list_all P xs \<Longrightarrow> P x \<Longrightarrow> list_all P (xs[i := x])"
  by (induction xs arbitrary: i) (auto split: nat.splits)

lemma updateJob_keeps_invariant:
  assumes "nextRunOnlyWhileEnabled jobs"
  shows "nextRunOnlyWhileEnabled (snd (updateJob ev now jid patch jobs))"
proof (cases "findIndex (\<lambda>j. jobId j = jid) jobs")
  case None
  with assms show ?thesis by (simp add: updateJob_def)
next
  case (Some i)
  show ?thesis
    using assms Some unfolding nextRunOnlyWhileEnabled_def updateJob_def Let_def
    by (auto split: sum.splits intro!: list_all_update)
qed

lemma removeJob_keeps_invariant:
  "nextRunOnlyWhileEnabled jobs \<Longrightarrow> nextRunOnlyWhileEnabled (snd (removeJob jid jobs))"
  by (simp add: removeJob_def nextRunOnlyWhileEnabled_def Let_def list_all_iff)

lemma markJobCompleted_keeps_invariant:
  assumes "nextRunOnlyWhileEnabled jobs"
  shows "nextRunOnlyWhileEnabled (snd (markJobCompleted ev now jid result jobs))"
proof (cases "findIndex (\<lambda>j. jobId j = jid) jobs")
  case None
  with assms show ?thesis by (simp add: markJobCompleted_def)
next
  case (Some i)
  from findIndex_SomeD[OF Some] have "i < length jobs" by simp
  with assms have old: "enabled (jobs ! i) = Some True \<or> nextRunAtMs (state (jobs ! i)) = None"
    by (simp add: nextRunOnlyWhileEnabled_def list_all_length)
  have filt: "list_all P (filter Q jobs)" if "list_all P jobs" for P Q
    using that by (simp add: list_all_iff)
  show ?thesis
    using assms old Some unfolding nextRunOnlyWhileEnabled_def markJobCompleted_def Let_def
    by (auto split: sum.splits intro!: list_all_update filt)
qed

lemma addJob_keeps_invariant:
  assumes "nextRunOnlyWhileEnabled jobs"
    and "enabled input = Some True
         \<or> (enabled input = Some False
             \<and> (case state input of None \<Rightarrow> True
                 | Some s \<Rightarrow> readProp (nextRunAtMs s) = None))"
  shows "nextRunOnlyWhileEnabled (snd (addJob ev newId now input jobs))"
  using assms
  by (auto simp: addJob_def nextRunOnlyWhileEnabled_def Let_def spreadOver_def readProp_def
      split: sum.splits option.splits ownprop.splits)

lemma applyOp_savedStore:
  "applyOp ev op snap = (case savedStore ev op snap of None \<Rightarrow> snap | Some js \<Rightarrow> js)"
proof (cases op)
  case (OpAdd newId now input)
  then show ?thesis by (auto simp: addJob_def Let_def split: sum.splits)
next
  case (OpUpdate now jid patch)
  then show ?thesis
    by (auto simp: updateJob_def Let_def split: option.splits sum.splits)
next
  case (OpRemove jid)
  then show ?thesis by (simp add: removeJob_def Let_def)
next
  case (OpMarkRunning patchNow now jid)
  then show ?thesis
    by (auto simp: markJobRunning_def updateJob_def Let_def split: option.splits sum.splits)
next
  case (OpMarkCompleted now jid result)
  then show ?thesis
    by (auto simp: markJobCompleted_def Let_def split: option.splits sum.splits)
qed

lemma scenarioA_created_eq:
  "scenarioA_created (computeNextRunAtMs cronNext) = [sampleJob ''X'' (Every 60000 0) (Some 60000)]"
  by (simp add: scenarioA_created_def addJob_def sampleInput_def sampleJob_def
      computeNextRun_def computeNextRunAtMs_def Let_def)

section \<open>The due selector\<close>

text \<open>
  Claim C1 as the specification states it asks for the due list to be ordered ascending by
  \<open>nextRunAtMs\<close>. The selector applies no ordering: two due jobs stored in descending
  order of \<open>nextRunAtMs\<close> are returned in that stored order.
\<close>

theorem getDueJobs_unsorted_counterexample:
  "getDueJobs 30 [sampleJob ''a'' (Every 20 0) (Some 20), sampleJob ''b'' (Every 10 0) (Some 10)]
     = Ok [sampleJob ''a'' (Every 20 0) (Some 20), sampleJob ''b'' (Every 10 0) (Some 10)]
   \<and> \<not> dueOrderedSpec
         (data (getDueJobs 30 [sampleJob ''a'' (Every 20 0) (Some 20),
                               sampleJob ''b'' (Every 10 0) (Some 10)]))"
  by (simp add: getDueJobs_def dueOrderedSpec_def sampleJob_def truthyNum_def)

text \<open>
  Claim C1, amended: for every collection in which no stored \<open>runningAtMs\<close> is \<open>0\<close>, and
  every reference time, \<open>getDueJobs\<close> returns exactly the jobs that are enabled, have
  \<open>runningAtMs\<close> unset and have \<open>nextRunAtMs\<close> set to a time not after the reference, in
  the order in which they are stored.
\<close>

theorem getDueJobs_selects_in_stored_order:
  assumes "\<forall>j \<in> set jobs. runningAtMs (state j) \<noteq> Some 0"
  shows "getDueJobs now jobs =
           Ok (filter (\<lambda>j. enabled j = Some True \<and> runningAtMs (state j) = None
                         \<and> (\<exists>n. nextRunAtMs (state j) = Some n \<and> n \<le> now)) jobs)"
proof -
  have "filter (\<lambda>j. if enabled j \<noteq> Some True then False
                    else if truthyNum (runningAtMs (state j)) then False
                    else (case nextRunAtMs (state j) of None \<Rightarrow> False | Some next \<Rightarrow> now \<ge> next)) jobs
        = filter (\<lambda>j. enabled j = Some True \<and> runningAtMs (state j) = None
                         \<and> (\<exists>n. nextRunAtMs (state j) = Some n \<and> n \<le> now)) jobs"
    using assms
    by (intro filter_cong refl) (auto simp: truthyNum_def split: option.splits)
  then show ?thesis by (simp add: getDueJobs_def)
qed

theorem getDueJobs_selects_in_stored_order_witness:
  "runningAtMs (state (sampleJob ''a'' (Every 20 0) (Some 20))) \<noteq> Some 0
   \<and> runningAtMs (state (sampleJob ''b'' (Every 10 0) (Some 40))) \<noteq> Some 0
   \<and> getDueJobs 30 [sampleJob ''a'' (Every 20 0) (Some 20), sampleJob ''b'' (Every 10 0) (Some 40)]
       = Ok [sampleJob ''a'' (Every 20 0) (Some 20)]"
  using getDueJobs_selects_in_stored_order
          [of "[sampleJob ''a'' (Every 20 0) (Some 20), sampleJob ''b'' (Every 10 0) (Some 40)]" 30]
  by (simp add: sampleJob_def)

section \<open>Completion of one-shot jobs\<close>

text \<open>
  Claim C3: for a one-shot job (schedule kind \<open>at\<close>) completed with status \<open>ok\<close>, the
  operation succeeds; if \<open>deleteAfterRun\<close> is true the job is gone from the store, so that
  neither \<open>getJob\<close> nor \<open>listJobs\<close> with disabled jobs included shows it; otherwise the
  job stays in the store, disabled and with \<open>nextRunAtMs\<close> unset.
\<close>

theorem markJobCompleted_one_shot_ok:
  assumes "getJob jid jobs = Ok job" and "schedule job = At a" and "status result = Status_ok"
  shows "(\<exists>j'. fst (markJobCompleted ev now jid result jobs) = Ok j')
       \<and> (deleteAfterRun job = Some True \<longrightarrow>
            getJob jid (snd (markJobCompleted ev now jid result jobs))
              = Failed (''Job not found: '' @ jid)
          \<and> jid \<notin> jobId ` set (data (listJobs True (snd (markJobCompleted ev now jid result jobs)))))
       \<and> (deleteAfterRun job \<noteq> Some True \<longrightarrow>
            (\<exists>j'. getJob jid (snd (markJobCompleted ev now jid result jobs)) = Ok j'
                 \<and> j' \<in> set (data (listJobs True (snd (markJobCompleted ev now jid result jobs))))
                 \<and> enabled j' = Some False \<and> nextRunAtMs (state j') = None))"
proof -
  from getJob_OkD[OF assms(1)] obtain i where
    i: "findIndex (\<lambda>j. jobId j = jid) jobs = Some i" "jobs ! i = job" "i < length jobs" "jobId job = jid"
    by blast
  show ?thesis
  proof (cases "deleteAfterRun job = Some True")
    case True
    then have run: "markJobCompleted ev now jid result jobs =
        (Ok (job\<lparr>state := (state job)\<lparr>runningAtMs := None, lastRunAtMs := Some now,
                     lastStatus := Some (status result), lastError := error result,
                     lastDurationMs := Some (durationMs result)\<rparr>, updatedAtMs := now\<rparr>),
         filter (\<lambda>j. jobId j \<noteq> jid) jobs)"
      using i assms(2,3) by (simp add: markJobCompleted_def Let_def)
    have "getJob jid (filter (\<lambda>j. jobId j \<noteq> jid) jobs) = Failed (''Job not found: '' @ jid)"
      unfolding getJob_def by (simp add: find_filter_out[where p="\<lambda>j. jobId j = jid"])
    with True run show ?thesis by (auto simp: set_listJobs_all)
  next
    case False
    from False obtain j' where run: "markJobCompleted ev now jid result jobs = (Ok j', jobs[i := j'])"
      and j': "jobId j' = jid" "enabled j' = Some False" "nextRunAtMs (state j') = None"
      using i assms(2,3) by (simp add: markJobCompleted_def Let_def)
    have "getJob jid (jobs[i := j']) = Ok j'" using j'(1) by (rule getJob_update[OF i(1)])
    moreover have "j' \<in> set (jobs[i := j'])" using i(3) by (simp add: set_update_memI)
    ultimately show ?thesis using False run j' by (simp add: set_listJobs_all)
  qed
qed

theorem markJobCompleted_one_shot_ok_witness:
  "getJob ''y'' [(sampleJob ''y'' (At 5000) (Some 5000))\<lparr>deleteAfterRun := Some True\<rparr>]
     = Ok ((sampleJob ''y'' (At 5000) (Some 5000))\<lparr>deleteAfterRun := Some True\<rparr>)
   \<and> schedule (sampleJob ''y'' (At 5000) (Some 5000)) = At 5000
   \<and> status (okResult 10) = Status_ok
   \<and> snd (markJobCompleted (computeNextRunAtMs rejectAllCron) 5000 ''y'' (okResult 10)
            [(sampleJob ''y'' (At 5000) (Some 5000))\<lparr>deleteAfterRun := Some True\<rparr>]) = []
   \<and> getJob ''y'' (snd (markJobCompleted (computeNextRunAtMs rejectAllCron) 5000 ''y'' (okResult 10)
            [(sampleJob ''y'' (At 5000) (Some 5000))\<lparr>deleteAfterRun := Some True\<rparr>]))
       = Failed ''Job not found: y''
   \<and> getJob ''y'' [(sampleJob ''y'' (At 5000) (Some 5000))\<lparr>deleteAfterRun := Some False\<rparr>]
       = Ok ((sampleJob ''y'' (At 5000) (Some 5000))\<lparr>deleteAfterRun := Some False\<rparr>)
   \<and> (\<exists>j'. getJob ''y'' (snd (markJobCompleted (computeNextRunAtMs rejectAllCron) 5000 ''y''
                                  (okResult 10)
                                  [(sampleJob ''y'' (At 5000) (Some 5000))\<lparr>deleteAfterRun := Some False\<rparr>]))
               = Ok j'
           \<and> enabled j' = Some False \<and> nextRunAtMs (state j') = None)"
proof -
  let ?ev = "computeNextRunAtMs rejectAllCron"
  let ?del = "(sampleJob ''y'' (At 5000) (Some 5000))\<lparr>deleteAfterRun := Some True\<rparr>"
  let ?keep = "(sampleJob ''y'' (At 5000) (Some 5000))\<lparr>deleteAfterRun := Some False\<rparr>"
  have a1: "getJob ''y'' [?del] = Ok ?del" and a2: "getJob ''y'' [?keep] = Ok ?keep"
    by (simp_all add: getJob_def sampleJob_def)
  have b1: "schedule ?del = At 5000" and b2: "schedule ?keep = At 5000"
    and b: "schedule (sampleJob ''y'' (At 5000) (Some 5000)) = At 5000"
    by (simp_all add: sampleJob_def)
  have c: "status (okResult 10) = Status_ok" by (simp add: okResult_def)
  have d1: "deleteAfterRun ?del = Some True" and d2: "deleteAfterRun ?keep \<noteq> Some True"
    by simp_all
  have e: "snd (markJobCompleted ?ev 5000 ''y'' (okResult 10) [?del]) = []"
    by (simp add: markJobCompleted_def sampleJob_def okResult_def Let_def)
  from markJobCompleted_one_shot_ok[OF a1 b1 c, of ?ev 5000] d1
  have f1: "getJob ''y'' (snd (markJobCompleted ?ev 5000 ''y'' (okResult 10) [?del]))
              = Failed ''Job not found: y''"
    by simp
  from markJobCompleted_one_shot_ok[OF a2 b2 c, of ?ev 5000] d2
  have f2: "\<exists>j'. getJob ''y'' (snd (markJobCompleted ?ev 5000 ''y'' (okResult 10) [?keep])) = Ok j'
                 \<and> enabled j' = Some False \<and> nextRunAtMs (state j') = None"
    by blast
  from a1 a2 b c e f1 f2 show ?thesis by blast
qed

section \<open>Recomputation on completion\<close>

lemma markJobCompleted_recompute:
  assumes "getJob jid jobs = Ok job" and "enabled job = Some True"
    and "\<not> ((\<exists>a. schedule job = At a) \<and> status result = Status_ok)"
    and "ev (schedule job) now = Inr next"
  shows "\<exists>j'. fst (markJobCompleted ev now jid result jobs) = Ok j'
            \<and> getJob jid (snd (markJobCompleted ev now jid result jobs)) = Ok j'
            \<and> enabled j' = Some True \<and> nextRunAtMs (state j') = next \<and> runningAtMs (state j') = None"
proof -
  from getJob_OkD[OF assms(1)] obtain i where
    i: "findIndex (\<lambda>j. jobId j = jid) jobs = Some i" "jobs ! i = job" "jobId job = jid"
    by blast
  from assms(3) have shot: "\<not> ((case schedule job of At _ \<Rightarrow> True | _ \<Rightarrow> False) \<and> status result = Status_ok)"
    by (cases "schedule job") auto
  obtain j' where run: "markJobCompleted ev now jid result jobs = (Ok j', jobs[i := j'])"
    and j': "jobId j' = jid" "enabled j' = Some True" "nextRunAtMs (state j') = next" "runningAtMs (state j') = None"
    using i assms(2,4) shot by (auto simp: markJobCompleted_def Let_def computeNextRun_def)
  have "getJob jid (jobs[i := j']) = Ok j'" using j'(1) by (rule getJob_update[OF i(1)])
  with run j' show ?thesis by simp
qed

text \<open>
  Claim C4 as the specification states it gives \<open>nextRunAtMs = 120500\<close> for scenario A. By
  the evaluator of section 4.1 the least \<open>0 + k * 60000\<close> strictly after \<open>60500\<close> is
  \<open>120000\<close>, and that is what the completion stores.
\<close>

theorem markJobCompleted_scenario_counterexample:
  "nextRunAtMs (state (data (fst (scenarioA_completed (computeNextRunAtMs rejectAllCron)))))
     \<noteq> Some 120500"
  by (simp add: scenarioA_completed_next)

text \<open>
  Claim C4, amended: for every job that is enabled and is not a one-shot job completed
  with status \<open>ok\<close>, \<open>markJobCompleted\<close> succeeds and stores as \<open>nextRunAtMs\<close> the
  evaluator's result for the job's schedule at the completion time (the one clock reading
  of the call), provided the evaluator returns; in scenario A, completed at \<open>60500\<close>, the
  stored \<open>nextRunAtMs\<close> is \<open>120000\<close>.
\<close>

theorem markJobCompleted_recomputes_at_completion_time:
  "(\<forall>ev now jid result jobs job next.
      getJob jid jobs = Ok job \<and> enabled job = Some True
      \<and> \<not> ((\<exists>a. schedule job = At a) \<and> status result = Status_ok)
      \<and> ev (schedule job) now = Inr next
      \<longrightarrow> (\<exists>j'. fst (markJobCompleted ev now jid result jobs) = Ok j'
              \<and> getJob jid (snd (markJobCompleted ev now jid result jobs)) = Ok j'
              \<and> enabled j' = Some True \<and> nextRunAtMs (state j') = next))
   \<and> (\<forall>cronNext.
        nextRunAtMs (state (data (fst (scenarioA_completed (computeNextRunAtMs cronNext)))))
          = Some 120000)"
proof (intro conjI allI impI)
  fix ev :: Evaluator and now jid and result :: RunResult and jobs and job :: CronJob and "next"
  assume h: "getJob jid jobs = Ok job \<and> enabled job = Some True
      \<and> \<not> ((\<exists>a. schedule job = At a) \<and> status result = Status_ok)
      \<and> ev (schedule job) now = Inr next"
  from markJobCompleted_recompute[of jid jobs job result ev now "next"] h
  show "\<exists>j'. fst (markJobCompleted ev now jid result jobs) = Ok j'
              \<and> getJob jid (snd (markJobCompleted ev now jid result jobs)) = Ok j'
              \<and> enabled j' = Some True \<and> nextRunAtMs (state j') = next"
    by blast
next
  fix cronNext
  show "nextRunAtMs (state (data (fst (scenarioA_completed (computeNextRunAtMs cronNext))))) = Some 120000"
    by (rule scenarioA_completed_next)
qed

theorem markJobCompleted_recomputes_at_completion_time_witness:
  "getJob ''X'' (scenarioA_running (computeNextRunAtMs rejectAllCron))
     = Ok (hd (scenarioA_running (computeNextRunAtMs rejectAllCron)))
   \<and> enabled (hd (scenarioA_running (computeNextRunAtMs rejectAllCron))) = Some True
   \<and> schedule (hd (scenarioA_running (computeNextRunAtMs rejectAllCron))) = Every 60000 0
   \<and> computeNextRunAtMs rejectAllCron (Every 60000 0) 60500 = Inr (Some 120000)
   \<and> (\<exists>j'. fst (markJobCompleted (computeNextRunAtMs rejectAllCron) 60500 ''X'' (okResult 500)
                   (scenarioA_running (computeNextRunAtMs rejectAllCron))) = Ok j'
          \<and> nextRunAtMs (state j') = Some 120000)"
proof -
  let ?ev = "computeNextRunAtMs rejectAllCron"
  let ?jobs = "scenarioA_running ?ev"
  have a: "getJob ''X'' ?jobs = Ok (hd ?jobs)"
    by (simp add: scenarioA_running_eq getJob_def sampleJob_def)
  have b: "enabled (hd ?jobs) = Some True" and c: "schedule (hd ?jobs) = Every 60000 0"
    by (simp_all add: scenarioA_running_eq sampleJob_def)
  have d: "?ev (schedule (hd ?jobs)) 60500 = Inr (Some 120000)"
    by (simp add: c computeNextRunAtMs_def)
  have e: "\<not> ((\<exists>a. schedule (hd ?jobs) = At a) \<and> status (okResult 500) = Status_ok)"
    by (simp add: c)
  from markJobCompleted_recomputes_at_completion_time a b d e
  have "\<exists>j'. fst (markJobCompleted ?ev 60500 ''X'' (okResult 500) ?jobs) = Ok j'
              \<and> getJob ''X'' (snd (markJobCompleted ?ev 60500 ''X'' (okResult 500) ?jobs)) = Ok j'
              \<and> enabled j' = Some True \<and> nextRunAtMs (state j') = Some 120000"
    by blast
  with a b c d show ?thesis by (auto simp: c)
qed

section \<open>Updates\<close>

text \<open>
  Claim C6: when an update carrying a payload patch succeeds, the stored job is the returned
  one; if the patch has the kind of the existing payload, every sub-field the patch omits
  keeps its existing value and every supplied one takes the patch's value; if the kinds
  differ, the new payload is the one the patch determines on its own, with defaults, and
  nothing of the old variant is carried over.
\<close>

theorem updateJob_payload_patch_variant_aware:
  assumes "getJob jid jobs = Ok job" and "p_payload patch = Some pp"
    and "updateJob ev now jid patch jobs = (Ok job', jobs')"
  shows "getJob jid jobs' = Ok job'
       \<and> (\<forall>t old. pp = SystemEventPatch t \<and> payload job = SystemEvent old \<longrightarrow>
             payload job' = SystemEvent (case t of None \<Rightarrow> old | Some x \<Rightarrow> x))
       \<and> (\<forall>p a. pp = AgentTurnPatch p \<and> payload job = AgentTurn a \<longrightarrow>
             (\<exists>a'. payload job' = AgentTurn a'
                  \<and> message a' = (case message p of None \<Rightarrow> message a | Some v \<Rightarrow> v)
                  \<and> model a' = (case model p of None \<Rightarrow> model a | Some v \<Rightarrow> Some v)
                  \<and> thinking a' = (case thinking p of None \<Rightarrow> thinking a | Some v \<Rightarrow> Some v)
                  \<and> timeoutSeconds a'
                        = (case timeoutSeconds p of None \<Rightarrow> timeoutSeconds a | Some v \<Rightarrow> Some v)
                  \<and> deliver a' = (case deliver p of None \<Rightarrow> deliver a | Some v \<Rightarrow> Some v)
                  \<and> channel a' = (case channel p of None \<Rightarrow> channel a | Some v \<Rightarrow> Some v)
                  \<and> to_field a' = (case to_field p of None \<Rightarrow> to_field a | Some v \<Rightarrow> Some v)
                  \<and> bestEffortDeliver a'
                        = (case bestEffortDeliver p of None \<Rightarrow> bestEffortDeliver a
                           | Some v \<Rightarrow> Some v)))
       \<and> (\<not> sameKind pp (payload job) \<longrightarrow> payload job' = payloadFromPatchAlone pp)"
proof -
  from getJob_OkD[OF assms(1)] obtain i where
    i: "findIndex (\<lambda>j. jobId j = jid) jobs = Some i" "jobs ! i = job" "jobId job = jid"
    by blast
  from updateJob_OkD[OF i(1) assms(3)] i(2) obtain st where
    j': "job' = (applyPatch now patch job)\<lparr>state := st\<rparr>" and jobs': "jobs' = jobs[i := job']"
    by blast
  have pay: "payload job' = applyPayloadPatch pp (payload job)"
    by (simp add: j' applyPatch_def assms(2))
  have "jobId job' = jid" by (simp add: j' applyPatch_def i(3))
  then have stored: "getJob jid jobs' = Ok job'"
    unfolding jobs' by (rule getJob_update[OF i(1)])
  show ?thesis
    using stored pay applyPayloadPatch_other_kind[of pp "payload job"]
      applyPayloadPatch_systemEvent applyPayloadPatch_agentTurn
    by (intro conjI allI impI) (simp_all del: ex_simps)
qed

theorem updateJob_payload_patch_variant_aware_witness:
  "getJob ''a'' [sampleJob ''a'' (Every 1000 0) (Some 1000)] = Ok (sampleJob ''a'' (Every 1000 0) (Some 1000))
   \<and> p_payload (emptyPatch\<lparr>p_payload := Some (SystemEventPatch None)\<rparr>) = Some (SystemEventPatch None)
   \<and> payload (sampleJob ''a'' (Every 1000 0) (Some 1000)) = SystemEvent ''tick''
   \<and> (\<exists>job' jobs'.
         updateJob (computeNextRunAtMs rejectAllCron) 5 ''a''
            (emptyPatch\<lparr>p_payload := Some (SystemEventPatch None)\<rparr>)
            [sampleJob ''a'' (Every 1000 0) (Some 1000)] = (Ok job', jobs')
       \<and> payload job' = SystemEvent ''tick'')
   \<and> \<not> sameKind modelOnlyPatch (payload (sampleJob ''a'' (Every 1000 0) (Some 1000)))
   \<and> (\<exists>job' jobs'.
         updateJob (computeNextRunAtMs rejectAllCron) 5 ''a''
            (emptyPatch\<lparr>p_payload := Some modelOnlyPatch\<rparr>)
            [sampleJob ''a'' (Every 1000 0) (Some 1000)] = (Ok job', jobs')
       \<and> payload job' = payloadFromPatchAlone modelOnlyPatch)"
proof -
  let ?job = "sampleJob ''a'' (Every 1000 0) (Some 1000)"
  let ?ev = "computeNextRunAtMs rejectAllCron"
  let ?p1 = "emptyPatch\<lparr>p_payload := Some (SystemEventPatch None)\<rparr>"
  let ?p2 = "emptyPatch\<lparr>p_payload := Some modelOnlyPatch\<rparr>"
  have a: "getJob ''a'' [?job] = Ok ?job" by (simp add: getJob_def sampleJob_def)
  have b1: "p_payload ?p1 = Some (SystemEventPatch None)" and b2: "p_payload ?p2 = Some modelOnlyPatch"
    by simp_all
  have c: "payload ?job = SystemEvent ''tick''" by (simp add: sampleJob_def)
  have d: "\<not> sameKind modelOnlyPatch (payload ?job)"
    by (simp add: c sameKind_def modelOnlyPatch_def)
  obtain j1 js1 where u1: "updateJob ?ev 5 ''a'' ?p1 [?job] = (Ok j1, js1)"
    by (simp add: updateJob_def emptyPatch_def applyPatch_def sampleJob_def setIfDefined_def
        nullish_def Let_def)
  obtain j2 js2 where u2: "updateJob ?ev 5 ''a'' ?p2 [?job] = (Ok j2, js2)"
    by (simp add: updateJob_def emptyPatch_def applyPatch_def sampleJob_def setIfDefined_def
        nullish_def Let_def)
  from updateJob_payload_patch_variant_aware[OF a b1 u1] c
  have e1: "payload j1 = SystemEvent ''tick''" by simp
  from updateJob_payload_patch_variant_aware[OF a b2 u2] d
  have e2: "payload j2 = payloadFromPatchAlone modelOnlyPatch" by simp
  from a b1 c d u1 u2 e1 e2 show ?thesis by blast
qed

text \<open>
  Claim C7: for every existing job, an update with \<open>{enabled: false}\<close> succeeds, clears
  \<open>nextRunAtMs\<close> and leaves the schedule unchanged; a following update with
  \<open>{enabled: true}\<close> at time \<open>t2\<close> stores the evaluator's result for that schedule at
  \<open>t2\<close>, whenever the evaluator returns one.
\<close>

theorem updateJob_disable_then_enable:
  assumes "getJob jid jobs = Ok job"
  shows "\<exists>j1 jobs1.
           updateJob ev t1 jid (emptyPatch\<lparr>p_enabled := Some False\<rparr>) jobs = (Ok j1, jobs1)
         \<and> getJob jid jobs1 = Ok j1
         \<and> nextRunAtMs (state j1) = None \<and> schedule j1 = schedule job
         \<and> (\<forall>t2 next. ev (schedule job) t2 = Inr next \<longrightarrow>
               (\<exists>j2 jobs2.
                  updateJob ev t2 jid (emptyPatch\<lparr>p_enabled := Some True\<rparr>) jobs1 = (Ok j2, jobs2)
                \<and> getJob jid jobs2 = Ok j2
                \<and> nextRunAtMs (state j2) = next \<and> schedule j2 = schedule job))"
proof -
  from getJob_OkD[OF assms(1)] obtain i where
    i: "findIndex (\<lambda>j. jobId j = jid) jobs = Some i" "jobs ! i = job" "i < length jobs" "jobId job = jid"
    by blast
  from updateJob_disable[OF i(1), of ev t1] i(2) obtain j1 where
    u1: "updateJob ev t1 jid (emptyPatch\<lparr>p_enabled := Some False\<rparr>) jobs = (Ok j1, jobs[i := j1])"
    and j1: "jobId j1 = jobId job" "schedule j1 = schedule job" "nextRunAtMs (state j1) = None"
    by auto
  have g1: "getJob jid (jobs[i := j1]) = Ok j1"
    using j1(1) i(4) by (intro getJob_update[OF i(1)]) simp
  from getJob_OkD[OF g1] obtain k where
    k: "findIndex (\<lambda>j. jobId j = jid) (jobs[i := j1]) = Some k" "jobs[i := j1] ! k = j1"
    by blast
  have second: "\<exists>j2 jobs2.
          updateJob ev t2 jid (emptyPatch\<lparr>p_enabled := Some True\<rparr>) (jobs[i := j1]) = (Ok j2, jobs2)
        \<and> getJob jid jobs2 = Ok j2
        \<and> nextRunAtMs (state j2) = next \<and> schedule j2 = schedule job"
    if ev2: "ev (schedule job) t2 = Inr next" for t2 "next"
  proof -
    have e2: "ev (schedule (jobs[i := j1] ! k)) t2 = Inr next"
      by (simp add: k(2) j1(2) ev2)
    from updateJob_enable[of jid "jobs[i := j1]" k ev t2 "next", OF k(1) e2] k(2) obtain j2 where
      u2: "updateJob ev t2 jid (emptyPatch\<lparr>p_enabled := Some True\<rparr>) (jobs[i := j1])
             = (Ok j2, jobs[i := j1, k := j2])"
      and j2: "jobId j2 = jobId j1" "schedule j2 = schedule j1" "nextRunAtMs (state j2) = next"
      by auto
    have g2: "getJob jid (jobs[i := j1, k := j2]) = Ok j2"
      using j2(1) j1(1) i(4) by (intro getJob_update[OF k(1)]) simp
    from u2 g2 j2 j1(2) show ?thesis by auto
  qed
  from u1 g1 j1 second show ?thesis by blast
qed

theorem updateJob_disable_then_enable_witness:
  "getJob ''a'' [sampleJob ''a'' (Every 1000 0) (Some 1000)] = Ok (sampleJob ''a'' (Every 1000 0) (Some 1000))
   \<and> computeNextRunAtMs rejectAllCron (schedule (sampleJob ''a'' (Every 1000 0) (Some 1000))) 7300
       = Inr (Some 8000)
   \<and> (\<exists>j1 jobs1 j2 jobs2.
         updateJob (computeNextRunAtMs rejectAllCron) 2500 ''a'' (emptyPatch\<lparr>p_enabled := Some False\<rparr>)
           [sampleJob ''a'' (Every 1000 0) (Some 1000)] = (Ok j1, jobs1)
       \<and> nextRunAtMs (state j1) = None \<and> schedule j1 = Every 1000 0
       \<and> updateJob (computeNextRunAtMs rejectAllCron) 7300 ''a'' (emptyPatch\<lparr>p_enabled := Some True\<rparr>)
           jobs1 = (Ok j2, jobs2)
       \<and> nextRunAtMs (state j2) = Some 8000)"
proof -
  let ?job = "sampleJob ''a'' (Every 1000 0) (Some 1000)"
  let ?ev = "computeNextRunAtMs rejectAllCron"
  have a: "getJob ''a'' [?job] = Ok ?job" by (simp add: getJob_def sampleJob_def)
  have b: "?ev (schedule ?job) 7300 = Inr (Some 8000)"
    by (simp add: sampleJob_def computeNextRunAtMs_def)
  have c: "schedule ?job = Every 1000 0" by (simp add: sampleJob_def)
  from updateJob_disable_then_enable[OF a, of ?ev 2500] b c
  show ?thesis using a by (metis (no_types, lifting))
qed

section \<open>Creation\<close>

text \<open>
  Claim C8 as the specification states it has create reject a malformed schedule with a
  validation error. A disabled input whose calendar expression the evaluator rejects is
  stored all the same: the evaluator is never consulted for it.
\<close>

theorem addJob_persists_rejected_schedule_counterexample:
  "computeNextRunAtMs rejectAllCron (schedule malformedCronInput) 0
     = Inl ''ScheduleError: every now and then''
   \<and> addJob (computeNextRunAtMs rejectAllCron) ''n'' 0 malformedCronInput []
       = (Ok ((sampleJob ''n'' (Cron ''every now and then'' ''UTC'') None)\<lparr>enabled := Some False\<rparr>),
          [(sampleJob ''n'' (Cron ''every now and then'' ''UTC'') None)\<lparr>enabled := Some False\<rparr>])"
  by (simp add: addJob_def malformedCronInput_def sampleInput_def sampleJob_def
      computeNextRunAtMs_def rejectAllCron_def Let_def)

text \<open>
  Claim C8, amended: create performs no validation of its own. It fails, storing nothing
  and returning the rendered exception, exactly when the input is not disabled (its flag
  \<open>enabled\<close> is true or omitted) and the evaluator raises on its schedule at the time of
  the call; in every other case it appends
  the new job, carrying the input's schedule and payload unchanged, and returns it.
\<close>

theorem addJob_fails_only_when_evaluator_raises:
  "(enabled input \<noteq> Some False \<and> (\<exists>err. ev (schedule input) now = Inl err)
      \<longrightarrow> (\<exists>err. ev (schedule input) now = Inl err
                \<and> addJob ev newId now input jobs = (Failed err, jobs)))
   \<and> (\<not> (enabled input \<noteq> Some False \<and> (\<exists>err. ev (schedule input) now = Inl err))
      \<longrightarrow> (\<exists>job. addJob ev newId now input jobs = (Ok job, jobs @ [job])
                \<and> jobId job = newId \<and> schedule job = schedule input
                \<and> payload job = payload input \<and> enabled job = enabled input
                \<and> createdAtMs job = now \<and> updatedAtMs job = now))"
proof (cases "enabled input \<noteq> Some False")
  case True
  then show ?thesis
    by (cases "ev (schedule input) now") (simp_all add: addJob_def computeNextRun_def Let_def)
next
  case False
  then show ?thesis by (simp add: addJob_def Let_def)
qed

theorem addJob_fails_only_when_evaluator_raises_witness:
  "enabled (sampleInput (Some True) (Cron ''every now and then'' ''UTC'') None) \<noteq> Some False
   \<and> computeNextRunAtMs rejectAllCron
        (schedule (sampleInput (Some True) (Cron ''every now and then'' ''UTC'') None)) 0
       = Inl ''ScheduleError: every now and then''
   \<and> addJob (computeNextRunAtMs rejectAllCron) ''n'' 0
        (sampleInput (Some True) (Cron ''every now and then'' ''UTC'') None) []
       = (Failed ''ScheduleError: every now and then'', [])
   \<and> enabled malformedCronInput = Some False
   \<and> (\<exists>job. addJob (computeNextRunAtMs rejectAllCron) ''n'' 0 malformedCronInput [] = (Ok job, [job]))"
proof -
  let ?ev = "computeNextRunAtMs rejectAllCron"
  let ?inp = "sampleInput (Some True) (Cron ''every now and then'' ''UTC'') None"
  have a: "enabled ?inp \<noteq> Some False" by (simp add: sampleInput_def)
  have b: "?ev (schedule ?inp) 0 = Inl ''ScheduleError: every now and then''"
    by (simp add: sampleInput_def computeNextRunAtMs_def rejectAllCron_def)
  have c: "enabled malformedCronInput = Some False" by (simp add: malformedCronInput_def sampleInput_def)
  from addJob_fails_only_when_evaluator_raises[of ?inp ?ev 0 "''n''" "[]"] a b
  have d: "addJob ?ev ''n'' 0 ?inp [] = (Failed ''ScheduleError: every now and then'', [])"
    by auto
  from addJob_fails_only_when_evaluator_raises[of malformedCronInput ?ev 0 "''n''" "[]"] c
  have e: "\<exists>job. addJob ?ev ''n'' 0 malformedCronInput [] = (Ok job, [job])"
    by auto
  from a b c d e show ?thesis by blast
qed

text \<open>
  Claim C10: when create succeeds on an input that carries a state object, every key
  present in that object is copied as it is into the stored job's state; in particular a
  supplied \<open>nextRunAtMs\<close> replaces the value computed by the evaluator, which is kept only
  when that key is absent.
\<close>

theorem addJob_state_spread_overrides:
  assumes "state input = Some s"
    and "addJob ev newId now input jobs = (Ok job, jobs')"
  shows "jobs' = jobs @ [job]
       \<and> (\<forall>v. nextRunAtMs s = Present v \<longrightarrow> nextRunAtMs (state job) = v)
       \<and> (\<forall>v. runningAtMs s = Present v \<longrightarrow> runningAtMs (state job) = v)
       \<and> (\<forall>v. lastRunAtMs s = Present v \<longrightarrow> lastRunAtMs (state job) = v)
       \<and> (\<forall>v. lastStatus s = Present v \<longrightarrow> lastStatus (state job) = v)
       \<and> (\<forall>v. lastError s = Present v \<longrightarrow> lastError (state job) = v)
       \<and> (\<forall>v. lastDurationMs s = Present v \<longrightarrow> lastDurationMs (state job) = v)
       \<and> (nextRunAtMs s = Absent \<longrightarrow>
            (if enabled input \<noteq> Some False then ev (schedule input) now = Inr (nextRunAtMs (state job))
             else nextRunAtMs (state job) = None))"
  using assms
  by (auto simp: addJob_def Let_def computeNextRun_def spreadOver_def readProp_def
      split: sum.splits if_splits)

theorem addJob_state_spread_overrides_witness:
  "state (sampleInput (Some True) (At 5000) (Some (emptyStatePartial\<lparr>nextRunAtMs := Present (Some 7)\<rparr>)))
     = Some (emptyStatePartial\<lparr>nextRunAtMs := Present (Some 7)\<rparr>)
   \<and> computeNextRunAtMs rejectAllCron (At 5000) 0 = Inr (Some 5000)
   \<and> (\<exists>job. addJob (computeNextRunAtMs rejectAllCron) ''n'' 0
               (sampleInput (Some True) (At 5000) (Some (emptyStatePartial\<lparr>nextRunAtMs := Present (Some 7)\<rparr>))) []
              = (Ok job, [job])
            \<and> nextRunAtMs (state job) = Some 7)"
proof -
  let ?s = "emptyStatePartial\<lparr>nextRunAtMs := Present (Some 7)\<rparr>"
  let ?inp = "sampleInput (Some True) (At 5000) (Some ?s)"
  let ?ev = "computeNextRunAtMs rejectAllCron"
  have a: "state ?inp = Some ?s" by (simp add: sampleInput_def)
  have b: "?ev (At 5000) 0 = Inr (Some 5000)" by (simp add: computeNextRunAtMs_def)
  obtain job jobs' where run: "addJob ?ev ''n'' 0 ?inp [] = (Ok job, jobs')"
    by (simp add: addJob_def sampleInput_def computeNextRun_def computeNextRunAtMs_def Let_def)
  have c: "nextRunAtMs ?s = Present (Some 7)" by simp
  from addJob_state_spread_overrides[OF a run] c
  have "jobs' = [job]" "nextRunAtMs (state job) = Some 7" by auto
  with run a b show ?thesis by blast
qed


section \<open>The invariant on next run times\<close>

text \<open>
  Create copies the flag \<open>enabled\<close> as it is: when the flag is omitted the next run time
  is computed all the same, and the job is stored without the flag, so that no reader
  takes it for enabled.
\<close>

lemma addJob_enabled_omitted:
  "snd (addJob (computeNextRunAtMs rejectAllCron) ''n'' 0 (sampleInput None (Every 1000 0) None) [])
     = [(sampleJob ''n'' (Every 1000 0) (Some 1000))\<lparr>enabled := None\<rparr>]
   \<and> data (getDueJobs 5000
        (snd (addJob (computeNextRunAtMs rejectAllCron) ''n'' 0 (sampleInput None (Every 1000 0) None) [])))
       = []"
  by (simp add: addJob_def sampleInput_def sampleJob_def computeNextRun_def computeNextRunAtMs_def
      getDueJobs_def Let_def)

text \<open>
  Claim C5 as the specification states it has every operation, create included, keep
  \<open>nextRunAtMs\<close> unset on disabled jobs. On create the caller's state object is spread
  over the computed value, so a disabled input that supplies \<open>nextRunAtMs\<close> is stored
  disabled with that value set.
\<close>

theorem addJob_breaks_nextRun_invariant_counterexample:
  "nextRunOnlyWhileEnabled []
   \<and> \<not> nextRunOnlyWhileEnabled
         (snd (addJob (computeNextRunAtMs rejectAllCron) ''n'' 0 disabledWithNextRun []))
   \<and> enabled (hd (snd (addJob (computeNextRunAtMs rejectAllCron) ''n'' 0 disabledWithNextRun [])))
       = Some False
   \<and> nextRunAtMs (state (hd (snd (addJob (computeNextRunAtMs rejectAllCron) ''n'' 0
                                       disabledWithNextRun []))))
       = Some 5"
  by (simp add: nextRunOnlyWhileEnabled_def addJob_def disabledWithNextRun_def sampleInput_def
      emptyStatePartial_def spreadOver_def readProp_def Let_def)

text \<open>
  Claim C5, amended: if no disabled job of the stored collection has \<open>nextRunAtMs\<close> set,
  the same holds of the collection after update, remove, markRunning and markCompleted,
  and after create whenever the input has \<open>enabled\<close> set to true, or set to false with no
  \<open>nextRunAtMs\<close> value supplied in a state object.
\<close>

theorem operations_preserve_nextRun_invariant:
  assumes "nextRunOnlyWhileEnabled jobs"
  shows "nextRunOnlyWhileEnabled (snd (updateJob ev now jid patch jobs))
       \<and> nextRunOnlyWhileEnabled (snd (removeJob jid jobs))
       \<and> nextRunOnlyWhileEnabled (snd (markJobRunning ev patchNow now jid jobs))
       \<and> nextRunOnlyWhileEnabled (snd (markJobCompleted ev now jid result jobs))
       \<and> (enabled input = Some True
            \<or> (enabled input = Some False
                \<and> (case state input of
                      None \<Rightarrow> True
                    | Some s \<Rightarrow> readProp (nextRunAtMs s) = None))
            \<longrightarrow> nextRunOnlyWhileEnabled (snd (addJob ev newId now input jobs)))"
proof -
  have "nextRunOnlyWhileEnabled (snd (markJobRunning ev patchNow now jid jobs))"
    unfolding markJobRunning_def using assms by (rule updateJob_keeps_invariant)
  with assms show ?thesis
    by (simp add: updateJob_keeps_invariant removeJob_keeps_invariant
        markJobCompleted_keeps_invariant addJob_keeps_invariant)
qed

theorem operations_preserve_nextRun_invariant_witness:
  "nextRunOnlyWhileEnabled [sampleJob ''a'' (At 5000) (Some 5000)]
   \<and> nextRunOnlyWhileEnabled
        (snd (updateJob (computeNextRunAtMs rejectAllCron) 10 ''a'' (emptyPatch\<lparr>p_enabled := Some False\<rparr>)
                [sampleJob ''a'' (At 5000) (Some 5000)]))
   \<and> nextRunOnlyWhileEnabled
        (snd (markJobCompleted (computeNextRunAtMs rejectAllCron) 5000 ''a'' (okResult 10)
                [sampleJob ''a'' (At 5000) (Some 5000)]))
   \<and> enabled (sampleInput (Some True) (Every 1000 0) None) = Some True
   \<and> nextRunOnlyWhileEnabled
        (snd (addJob (computeNextRunAtMs rejectAllCron) ''n'' 0 (sampleInput (Some True) (Every 1000 0) None)
                [sampleJob ''a'' (At 5000) (Some 5000)]))"
proof -
  have a: "nextRunOnlyWhileEnabled [sampleJob ''a'' (At 5000) (Some 5000)]"
    by (simp add: nextRunOnlyWhileEnabled_def sampleJob_def)
  have b: "enabled (sampleInput (Some True) (Every 1000 0) None) = Some True" by (simp add: sampleInput_def)
  from operations_preserve_nextRun_invariant[OF a, where ev="computeNextRunAtMs rejectAllCron"
      and now=10 and jid="''a''" and patch="emptyPatch\<lparr>p_enabled := Some False\<rparr>"]
    operations_preserve_nextRun_invariant[OF a, where ev="computeNextRunAtMs rejectAllCron"
      and now=5000 and jid="''a''" and result="okResult 10"]
    operations_preserve_nextRun_invariant[OF a, where ev="computeNextRunAtMs rejectAllCron"
      and now=0 and newId="''n''" and input="sampleInput (Some True) (Every 1000 0) None"]
    a b
  show ?thesis by blast
qed

section \<open>A running job is not due\<close>

lemma runningMarked_not_due:
  assumes "runningMarked jid jobs"
  shows "jid \<notin> jobId ` set (data (getDueJobs referenceTimeMs jobs))"
  using assms by (auto simp: runningMarked_def getDueJobs_def list_all_iff)

lemma markJobRunning_marks:
  assumes "distinct (map jobId jobs)"
    and "markJobRunning ev patchNow now jid jobs = (Ok job, jobs1)"
    and "patchNow \<noteq> 0"
  shows "runningMarked jid jobs1 \<and> runningAtMs (state job) = Some patchNow"
proof (cases "findIndex (\<lambda>j. jobId j = jid) jobs")
  case None
  with assms(2) show ?thesis by (simp add: markJobRunning_def updateJob_def)
next
  case (Some i)
  from findIndex_SomeD[OF Some] have i: "i < length jobs" "jobId (jobs ! i) = jid" by simp_all
  from updateJob_OkD[OF Some assms(2)[unfolded markJobRunning_def]] obtain st where
    job: "job = (applyPatch now
                  (emptyPatch\<lparr>p_state := Some (emptyStatePartial\<lparr>runningAtMs := Present (Some patchNow)\<rparr>)\<rparr>)
                  (jobs ! i))\<lparr>state := st\<rparr>"
    and jobs1: "jobs1 = jobs[i := job]"
    by blast
  have run: "runningAtMs (state job) = Some patchNow"
    using assms(2) Some
    by (auto simp: markJobRunning_def updateJob_def applyPatch_def applyStatePatch_def
        emptyPatch_def emptyStatePartial_def nullish_def readProp_def setIfDefined_def Let_def
        split: if_splits sum.splits)
  have "jobId (jobs1 ! k) \<noteq> jid \<or> truthyNum (runningAtMs (state (jobs1 ! k)))"
    if k: "k < length jobs1" for k
  proof (cases "k = i")
    case True
    with i(1) run assms(3) show ?thesis by (simp add: jobs1 truthyNum_def)
  next
    case False
    from k have "k < length jobs" by (simp add: jobs1)
    with False i(1) assms(1) have "map jobId jobs ! k \<noteq> map jobId jobs ! i"
      by (simp add: nth_eq_iff_index_eq del: nth_map)
    with \<open>k < length jobs\<close> i False show ?thesis by (simp add: jobs1)
  qed
  then show ?thesis using run by (simp add: runningMarked_def list_all_length)
qed

lemma updateJob_keeps_mark:
  assumes "runningMarked jid jobs"
    and "i \<noteq> jid \<or> (case p_state patch of None \<Rightarrow> True
                       | Some sp \<Rightarrow> readProp (runningAtMs sp) \<noteq> Some 0)"
  shows "runningMarked jid (snd (updateJob ev now i patch jobs))"
proof (cases "findIndex (\<lambda>j. jobId j = i) jobs")
  case None
  with assms(1) show ?thesis by (simp add: updateJob_def)
next
  case (Some k)
  from findIndex_SomeD[OF Some] have k: "k < length jobs" "jobId (jobs ! k) = i" by simp_all
  with assms(1) have old: "i \<noteq> jid \<or> truthyNum (runningAtMs (state (jobs ! k)))"
    by (auto simp: runningMarked_def list_all_length)
  let ?job = "applyPatch now patch (jobs ! k)"
  have id: "jobId ?job = i" by (simp add: applyPatch_def k(2))
  have mark: "i \<noteq> jid \<or> truthyNum (runningAtMs (state ?job))"
    using old assms(2)
    by (auto simp: applyPatch_def applyStatePatch_def nullish_def truthyNum_def
        split: option.splits)
  show ?thesis
    using assms(1) Some id mark unfolding runningMarked_def updateJob_def Let_def
    by (auto split: sum.splits intro!: list_all_update)
qed

lemma markJobCompleted_other_keeps_mark:
  assumes "runningMarked jid jobs" and "i \<noteq> jid"
  shows "runningMarked jid (snd (markJobCompleted ev now i result jobs))"
proof (cases "findIndex (\<lambda>j. jobId j = i) jobs")
  case None
  with assms(1) show ?thesis by (simp add: markJobCompleted_def)
next
  case (Some k)
  from findIndex_SomeD[OF Some] have k: "jobId (jobs ! k) = i" by simp
  have filt: "list_all P (filter Q jobs)" if "list_all P jobs" for P Q
    using that by (simp add: list_all_iff)
  show ?thesis
    using assms Some k unfolding runningMarked_def markJobCompleted_def Let_def
    by (auto split: sum.splits intro!: list_all_update filt)
qed

lemma applyOp_keeps_mark:
  assumes "runningMarked jid jobs" and "leavesRunningMark jid op"
  shows "runningMarked jid (applyOp ev op jobs)"
proof (cases op)
  case (OpAdd newId now input)
  with assms show ?thesis
    by (auto simp: addJob_def runningMarked_def Let_def split: sum.splits)
next
  case (OpUpdate now i patch)
  with assms show ?thesis by (simp add: updateJob_keeps_mark)
next
  case (OpRemove i)
  with assms show ?thesis by (simp add: removeJob_def runningMarked_def Let_def list_all_iff)
next
  case (OpMarkRunning patchNow now i)
  with assms have "i \<noteq> jid \<or> patchNow \<noteq> 0" by simp
  then have "i \<noteq> jid \<or> (case p_state (emptyPatch\<lparr>p_state := Some (emptyStatePartial\<lparr>runningAtMs := Present (Some patchNow)\<rparr>)\<rparr>) of None \<Rightarrow> True
                       | Some sp \<Rightarrow> readProp (runningAtMs sp) \<noteq> Some 0)"
    by (simp add: readProp_def)
  from updateJob_keeps_mark[OF assms(1) this] OpMarkRunning show ?thesis
    by (simp add: markJobRunning_def)
next
  case (OpMarkCompleted now i result)
  with assms show ?thesis by (simp add: markJobCompleted_other_keeps_mark)
qed

lemma runOps_keeps_mark:
  "runningMarked jid jobs \<Longrightarrow> list_all (leavesRunningMark jid) ops
     \<Longrightarrow> runningMarked jid (runOps ev ops jobs)"
  unfolding runOps_def
  by (induction ops arbitrary: jobs) (simp_all add: applyOp_keeps_mark)

lemma markJobCompleted_clears_running:
  "markJobCompleted ev now jid result jobs = (Ok job', jobs') \<Longrightarrow> runningAtMs (state job') = None"
  by (auto simp: markJobCompleted_def Let_def split: option.splits if_splits sum.splits)

lemma stepEvent_keeps_mark:
  assumes "worldMarked jid w" and "eventLeavesMark jid e"
  shows "worldMarked jid (stepEvent ev e w)"
proof (cases e)
  case (Load p)
  with assms(1) show ?thesis by (simp add: worldMarked_def)
next
  case (Save p op)
  with assms(2) have op: "leavesRunningMark jid op" by simp
  show ?thesis
  proof (cases "snapshot w p")
    case None
    with Save assms(1) show ?thesis by simp
  next
    case (Some snap)
    with assms(1) have snap: "runningMarked jid snap" by (simp add: worldMarked_def)
    show ?thesis
    proof (cases "savedStore ev op snap")
      case None
      with Save Some assms(1) show ?thesis by (simp add: worldMarked_def)
    next
      case (Some js)
      from applyOp_keeps_mark[OF snap op, of ev] Some have "runningMarked jid js"
        by (simp add: applyOp_savedStore)
      with Save \<open>snapshot w p = Some snap\<close> Some assms(1) show ?thesis
        by (simp add: worldMarked_def)
    qed
  qed
qed

lemma runEvents_keeps_mark:
  "worldMarked jid w \<Longrightarrow> list_all (eventLeavesMark jid) es
     \<Longrightarrow> worldMarked jid (runEvents ev es w)"
  unfolding runEvents_def
  by (induction es arbitrary: w) (simp_all add: stepEvent_keeps_mark)

lemma markJobRunning_stored:
  assumes "markJobRunning ev patchNow now jid jobs = (Ok job, jobs1)"
  shows "getJob jid jobs1 = Ok job"
proof (cases "findIndex (\<lambda>j. jobId j = jid) jobs")
  case None
  with assms show ?thesis by (simp add: markJobRunning_def updateJob_def)
next
  case (Some i)
  from findIndex_SomeD[OF Some] have i: "jobId (jobs ! i) = jid" by simp
  from updateJob_OkD[OF Some assms[unfolded markJobRunning_def]] obtain st where
    job: "job = (applyPatch now
                  (emptyPatch\<lparr>p_state := Some (emptyStatePartial\<lparr>runningAtMs := Present (Some patchNow)\<rparr>)\<rparr>)
                  (jobs ! i))\<lparr>state := st\<rparr>"
    and jobs1: "jobs1 = jobs[i := job]"
    by blast
  have "jobId job = jid" by (simp add: job applyPatch_def i)
  then show ?thesis unfolding jobs1 by (rule getJob_update[OF Some])
qed

lemma markJobCompleted_stored_cleared:
  assumes "markJobCompleted ev now jid result jobs = (Ok job', jobs2)"
    and "getJob jid jobs2 = Ok j"
  shows "runningAtMs (state j) = None"
proof (cases "findIndex (\<lambda>j. jobId j = jid) jobs")
  case None
  with assms(1) show ?thesis by (simp add: markJobCompleted_def)
next
  case (Some i)
  from findIndex_SomeD[OF Some] have i: "jobId (jobs ! i) = jid" by simp
  have gone: "getJob jid (filter (\<lambda>j. jobId j \<noteq> jid) jobs) = Failed (''Job not found: '' @ jid)"
    unfolding getJob_def by (simp add: find_filter_out[where p="\<lambda>j. jobId j = jid"])
  from assms(1) Some i
  have "jobs2 = filter (\<lambda>j. jobId j \<noteq> jid) jobs
        \<or> (jobs2 = jobs[i := job'] \<and> jobId job' = jid \<and> runningAtMs (state job') = None)"
    by (auto simp: markJobCompleted_def Let_def split: if_splits sum.splits)
  then show ?thesis
  proof
    assume "jobs2 = filter (\<lambda>j. jobId j \<noteq> jid) jobs"
    with gone assms(2) show ?thesis by simp
  next
    assume h: "jobs2 = jobs[i := job'] \<and> jobId job' = jid \<and> runningAtMs (state job') = None"
    then have "getJob jid jobs2 = Ok job'" using getJob_update[OF Some, of job'] by simp
    with assms(2) h show ?thesis by simp
  qed
qed

text \<open>
  Claim C2 as the specification states it keeps a job out of every due list from a
  successful \<open>markJobRunning\<close> until its completion. Two further calls, neither of them a
  completion, bring the marked job of scenario A back into the due list: an update whose
  state patch writes \<open>0\<close> into \<open>runningAtMs\<close>, which the due selector reads as unset; and
  a rename that loaded the collection before the marking was saved and saves after it,
  writing the unmarked job back.
\<close>

theorem running_mark_erased_counterexample:
  "fst (markJobRunning (computeNextRunAtMs rejectAllCron) 60000 60000 ''X''
          (scenarioA_created (computeNextRunAtMs rejectAllCron)))
     = Ok (hd (scenarioA_running (computeNextRunAtMs rejectAllCron)))
   \<and> ''X'' \<notin> jobId ` set (data (getDueJobs 60200
                 (scenarioA_running (computeNextRunAtMs rejectAllCron))))
   \<and> ''X'' \<in> jobId ` set (data (getDueJobs 60200
                 (snd (updateJob (computeNextRunAtMs rejectAllCron) 60100 ''X'' zeroRunningPatch
                         (scenarioA_running (computeNextRunAtMs rejectAllCron))))))
   \<and> ''X'' \<in> jobId ` set (data (getDueJobs 60200
                 (document (runEvents (computeNextRunAtMs rejectAllCron)
                              [Load 0, Load 1,
                               Save 0 (OpMarkRunning 60000 60000 ''X''),
                               Save 1 (OpUpdate 60100 ''X'' renamePatch)]
                              (initialWorld (scenarioA_created (computeNextRunAtMs rejectAllCron)))))))"
proof -
  let ?ev = "computeNextRunAtMs rejectAllCron"
  have a: "fst (markJobRunning ?ev 60000 60000 ''X'' (scenarioA_created ?ev))
             = Ok (hd (scenarioA_running ?ev))"
    by (simp add: scenarioA_running_def scenarioA_created_eq markJobRunning_def updateJob_def
        applyPatch_def emptyPatch_def setIfDefined_def nullish_def sampleJob_def Let_def)
  have b: "''X'' \<notin> jobId ` set (data (getDueJobs 60200 (scenarioA_running ?ev)))"
    by (simp add: scenarioA_running_eq getDueJobs_def sampleJob_def truthyNum_def)
  have c: "''X'' \<in> jobId ` set (data (getDueJobs 60200
                 (snd (updateJob ?ev 60100 ''X'' zeroRunningPatch (scenarioA_running ?ev)))))"
    by (simp add: scenarioA_running_eq updateJob_def applyPatch_def applyStatePatch_def
        zeroRunningPatch_def emptyPatch_def emptyStatePartial_def setIfDefined_def nullish_def
        readProp_def getDueJobs_def sampleJob_def truthyNum_def Let_def)
  have d: "''X'' \<in> jobId ` set (data (getDueJobs 60200
                 (document (runEvents ?ev
                              [Load 0, Load 1,
                               Save 0 (OpMarkRunning 60000 60000 ''X''),
                               Save 1 (OpUpdate 60100 ''X'' renamePatch)]
                              (initialWorld (scenarioA_created ?ev))))))"
    by (simp add: runEvents_def initialWorld_def scenarioA_created_eq markJobRunning_def
        updateJob_def applyPatch_def applyStatePatch_def renamePatch_def emptyPatch_def
        emptyStatePartial_def setIfDefined_def nullish_def readProp_def getDueJobs_def
        sampleJob_def truthyNum_def Let_def)
  from a b c d show ?thesis by blast
qed

text \<open>
  Claim C2, amended: when \<open>markJobRunning\<close> succeeds on a job of a store with unique
  identifiers, at a clock reading other than \<open>0\<close>, the job is stored with \<open>runningAtMs\<close>
  set to that reading and is in no result of \<open>getDueJobs\<close>, at any reference time,
  neither at once nor after further calls that load the collection after the marking was
  saved, overlapping one another or not, as long as none of them is a completion of the
  job or writes \<open>0\<close> into its \<open>runningAtMs\<close> (creates with fresh identifiers, removes,
  completions of other jobs, other updates and markings). A successful
  \<open>markJobCompleted\<close> of the job returns it, and leaves it stored if at all, with
  \<open>runningAtMs\<close> unset.
\<close>

theorem running_job_not_due_until_completed:
  assumes "distinct (map jobId jobs)"
    and "markJobRunning ev patchNow now jid jobs = (Ok job, jobs1)"
    and "patchNow \<noteq> 0"
  shows "getJob jid jobs1 = Ok job \<and> runningAtMs (state job) = Some patchNow
       \<and> (\<forall>es referenceTimeMs.
            list_all (eventLeavesMark jid) es \<longrightarrow>
            jid \<notin> jobId ` set (data (getDueJobs referenceTimeMs
                                      (document (runEvents ev es (initialWorld jobs1))))))
       \<and> (\<forall>ops referenceTimeMs.
            list_all (leavesRunningMark jid) ops \<longrightarrow>
            jid \<notin> jobId ` set (data (getDueJobs referenceTimeMs (runOps ev ops jobs1))))
       \<and> (\<forall>doneAt result stored job' jobs2 j.
            markJobCompleted ev doneAt jid result stored = (Ok job', jobs2) \<longrightarrow>
            runningAtMs (state job') = None
            \<and> (getJob jid jobs2 = Ok j \<longrightarrow> runningAtMs (state j) = None))"
proof -
  from markJobRunning_marks[OF assms(1,2,3)]
  have marked: "runningMarked jid jobs1" and stamp: "runningAtMs (state job) = Some patchNow"
    by simp_all
  have stored: "getJob jid jobs1 = Ok job" using assms(2) by (rule markJobRunning_stored)
  have world: "worldMarked jid (initialWorld jobs1)"
    using marked by (simp add: worldMarked_def initialWorld_def)
  have events: "jid \<notin> jobId ` set (data (getDueJobs referenceTimeMs
                                      (document (runEvents ev es (initialWorld jobs1)))))"
    if "list_all (eventLeavesMark jid) es" for es referenceTimeMs
  proof -
    from runEvents_keeps_mark[OF world that, of ev]
    have "runningMarked jid (document (runEvents ev es (initialWorld jobs1)))"
      by (simp add: worldMarked_def)
    then show ?thesis by (rule runningMarked_not_due)
  qed
  have serial: "jid \<notin> jobId ` set (data (getDueJobs referenceTimeMs (runOps ev ops jobs1)))"
    if "list_all (leavesRunningMark jid) ops" for ops referenceTimeMs
    using runOps_keeps_mark[OF marked that, of ev] by (rule runningMarked_not_due)
  have completed: "runningAtMs (state job') = None
            \<and> (getJob jid jobs2 = Ok j \<longrightarrow> runningAtMs (state j) = None)"
    if "markJobCompleted ev doneAt jid result stored = (Ok job', jobs2)"
    for doneAt result stored job' jobs2 j
    using that markJobCompleted_clears_running[OF that] markJobCompleted_stored_cleared[OF that]
    by blast
  from stored stamp events serial completed show ?thesis by blast
qed

theorem running_job_not_due_until_completed_witness:
  "distinct (map jobId (scenarioA_created (computeNextRunAtMs rejectAllCron)))
   \<and> data (getDueJobs 60000 (scenarioA_created (computeNextRunAtMs rejectAllCron)))
       = scenarioA_created (computeNextRunAtMs rejectAllCron)
   \<and> markJobRunning (computeNextRunAtMs rejectAllCron) 60000 60000 ''X''
        (scenarioA_created (computeNextRunAtMs rejectAllCron))
       = (Ok (hd (scenarioA_running (computeNextRunAtMs rejectAllCron))),
          scenarioA_running (computeNextRunAtMs rejectAllCron))
   \<and> (60000 :: int) \<noteq> 0
   \<and> list_all (eventLeavesMark ''X'')
        [Load 0, Load 1, Save 0 addA, Save 1 (OpUpdate 60100 ''X'' renamePatch)]
   \<and> runningAtMs (state (hd (scenarioA_running (computeNextRunAtMs rejectAllCron)))) = Some 60000
   \<and> ''X'' \<notin> jobId ` set (data (getDueJobs 60200
              (document (runEvents (computeNextRunAtMs rejectAllCron)
                           [Load 0, Load 1, Save 0 addA, Save 1 (OpUpdate 60100 ''X'' renamePatch)]
                           (initialWorld (scenarioA_running (computeNextRunAtMs rejectAllCron)))))))
   \<and> runningAtMs (state (data (fst (scenarioA_completed (computeNextRunAtMs rejectAllCron))))) = None
   \<and> ''X'' \<in> jobId ` set (data (getDueJobs 120000
              (snd (scenarioA_completed (computeNextRunAtMs rejectAllCron)))))"
proof -
  let ?ev = "computeNextRunAtMs rejectAllCron"
  let ?es = "[Load 0, Load 1, Save 0 addA, Save 1 (OpUpdate 60100 ''X'' renamePatch)]"
  have a: "distinct (map jobId (scenarioA_created ?ev))" by (simp add: scenarioA_created_eq)
  have due: "data (getDueJobs 60000 (scenarioA_created ?ev)) = scenarioA_created ?ev"
    by (simp add: scenarioA_created_eq getDueJobs_def sampleJob_def truthyNum_def)
  have "fst (markJobRunning ?ev 60000 60000 ''X'' (scenarioA_created ?ev))
          = Ok (hd (scenarioA_running ?ev))"
    by (simp add: scenarioA_running_def scenarioA_created_eq markJobRunning_def updateJob_def
        applyPatch_def emptyPatch_def setIfDefined_def nullish_def sampleJob_def Let_def)
  then have b: "markJobRunning ?ev 60000 60000 ''X'' (scenarioA_created ?ev)
                  = (Ok (hd (scenarioA_running ?ev)), scenarioA_running ?ev)"
    by (simp add: scenarioA_running_def prod_eq_iff)
  have c: "(60000 :: int) \<noteq> 0" by simp
  have d: "list_all (eventLeavesMark ''X'') ?es"
    by (simp add: addA_def renamePatch_def emptyPatch_def)
  have e: "runningAtMs (state (data (fst (scenarioA_completed ?ev)))) = None"
    by (simp add: scenarioA_completed_def scenarioA_running_eq markJobCompleted_def okResult_def
        sampleJob_def computeNextRun_def computeNextRunAtMs_def Let_def)
  have f: "''X'' \<in> jobId ` set (data (getDueJobs 120000 (snd (scenarioA_completed ?ev))))"
    by (simp add: scenarioA_completed_def scenarioA_running_eq markJobCompleted_def okResult_def
        sampleJob_def computeNextRun_def computeNextRunAtMs_def getDueJobs_def truthyNum_def
        Let_def)
  from running_job_not_due_until_completed[OF a b c] d
  have "runningAtMs (state (hd (scenarioA_running ?ev))) = Some 60000"
    and "''X'' \<notin> jobId ` set (data (getDueJobs 60200
              (document (runEvents ?ev ?es (initialWorld (scenarioA_running ?ev))))))"
    by blast+
  with a due b c d e f show ?thesis by blast
qed

section \<open>Absence of locking\<close>

lemma load_then_save:
  "stepEvent ev (Save p op) (stepEvent ev (Load p) w)
     = w\<lparr>document := applyOp ev op (document w), snapshot := (snapshot w)(p := None)\<rparr>"
  by (cases "savedStore ev op (document w)") (simp_all add: applyOp_savedStore)

lemma serial_from:
  "document (fold (stepEvent ev)
       (concat (map (\<lambda>(p, op). [Load p, Save p op]) (enumerate n ops))) w)
     = fold (applyOp ev) ops (document w)"
proof (induction ops arbitrary: n w)
  case Nil
  show ?case by simp
next
  case (Cons op ops)
  have "document (fold (stepEvent ev)
          (concat (map (\<lambda>(p, op). [Load p, Save p op]) (enumerate n (op # ops)))) w)
        = document (fold (stepEvent ev)
            (concat (map (\<lambda>(p, op). [Load p, Save p op]) (enumerate (Suc n) ops)))
            (stepEvent ev (Save n op) (stepEvent ev (Load n) w)))"
    by simp
  also have "\<dots> = fold (applyOp ev) ops
                     (document (stepEvent ev (Save n op) (stepEvent ev (Load n) w)))"
    by (rule Cons.IH)
  also have "\<dots> = fold (applyOp ev) (op # ops) (document w)"
    by (simp add: load_then_save del: stepEvent.simps)
  finally show ?case .
qed

lemma failures_are_not_found_or_evaluator:
  "(addJob ev newId now input jobs = (Failed msg, js) \<longrightarrow> ev (schedule input) now = Inl msg)
   \<and> (updateJob ev now jid patch jobs = (Failed msg, js) \<longrightarrow>
        msg = ''Job not found: '' @ jid \<or> (\<exists>sched. ev sched now = Inl msg))
   \<and> (markJobCompleted ev now jid result jobs = (Failed msg, js) \<longrightarrow>
        msg = ''Job not found: '' @ jid \<or> (\<exists>sched. ev sched now = Inl msg))
   \<and> fst (removeJob jid jobs) \<noteq> Failed msg"
  by (auto simp: addJob_def updateJob_def markJobCompleted_def removeJob_def computeNextRun_def
      Let_def split: option.splits if_splits sum.splits)

text \<open>
  Claim C9 as the specification states it has every mutating operation hold an exclusive
  lock from before its load until after its save. The operations take no lock. When two
  creates overlap, both loading before either saves, the second save overwrites the
  first: the document ends with one job, which is the outcome of neither serial order.
\<close>

theorem lost_update_counterexample:
  "document (runEvents (computeNextRunAtMs rejectAllCron)
               [Load 0, Load 1, Save 0 addA, Save 1 addB] (initialWorld []))
     = [sampleJob ''b'' (Every 1000 0) (Some 1000)]
   \<and> runOps (computeNextRunAtMs rejectAllCron) [addA, addB] []
       = [sampleJob ''a'' (Every 1000 0) (Some 1000), sampleJob ''b'' (Every 1000 0) (Some 1000)]
   \<and> runOps (computeNextRunAtMs rejectAllCron) [addB, addA] []
       = [sampleJob ''b'' (Every 1000 0) (Some 1000), sampleJob ''a'' (Every 1000 0) (Some 1000)]"
  by (simp add: runEvents_def runOps_def initialWorld_def addA_def addB_def addJob_def
      sampleInput_def sampleJob_def computeNextRun_def computeNextRunAtMs_def Let_def)

text \<open>
  Claim C9, amended: the mutating operations acquire no lock and wait for none. Their
  load-modify-save cycles are serialized only when the calls do not overlap: run one after
  another, each call loads what the previous one saved, and the document ends as the
  composition of the calls. No lock-timeout error exists: short of a fault of the store
  itself, the only error results are \<open>Job not found\<close> for the given identifier and the
  rendering of an exception raised by the evaluator, and remove never fails.
\<close>

theorem unlocked_operations_serialize_only_without_overlap:
  "document (runEvents ev (serialSchedule ops) (initialWorld jobs)) = runOps ev ops jobs
   \<and> (\<forall>newId now input msg js.
         addJob ev newId now input jobs = (Failed msg, js) \<longrightarrow> ev (schedule input) now = Inl msg)
   \<and> (\<forall>now jid patch msg js.
         updateJob ev now jid patch jobs = (Failed msg, js) \<longrightarrow>
           msg = ''Job not found: '' @ jid \<or> (\<exists>sched. ev sched now = Inl msg))
   \<and> (\<forall>patchNow now jid msg js.
         markJobRunning ev patchNow now jid jobs = (Failed msg, js) \<longrightarrow>
           msg = ''Job not found: '' @ jid \<or> (\<exists>sched. ev sched now = Inl msg))
   \<and> (\<forall>now jid result msg js.
         markJobCompleted ev now jid result jobs = (Failed msg, js) \<longrightarrow>
           msg = ''Job not found: '' @ jid \<or> (\<exists>sched. ev sched now = Inl msg))
   \<and> (\<forall>jid msg. fst (removeJob jid jobs) \<noteq> Failed msg)"
proof -
  have "document (runEvents ev (serialSchedule ops) (initialWorld jobs)) = runOps ev ops jobs"
    unfolding runEvents_def serialSchedule_def runOps_def
    by (simp add: serial_from initialWorld_def)
  then show ?thesis
    using failures_are_not_found_or_evaluator[of ev _ _ _ jobs]
    unfolding markJobRunning_def by blast
qed


theorem unlocked_operations_serialize_only_without_overlap_witness:
  "updateJob (computeNextRunAtMs rejectAllCron) 0 ''zz'' emptyPatch [] = (Failed ''Job not found: zz'', [])
   \<and> document (runEvents (computeNextRunAtMs rejectAllCron) (serialSchedule [addA, addB])
                 (initialWorld []))
       = [sampleJob ''a'' (Every 1000 0) (Some 1000), sampleJob ''b'' (Every 1000 0) (Some 1000)]
   \<and> (''Job not found: zz'' = ''Job not found: '' @ ''zz''
        \<or> (\<exists>sched. computeNextRunAtMs rejectAllCron sched 0 = Inl ''Job not found: zz''))"
proof -
  let ?ev = "computeNextRunAtMs rejectAllCron"
  have a: "updateJob ?ev 0 ''zz'' emptyPatch [] = (Failed ''Job not found: zz'', [])"
    by (simp add: updateJob_def)
  have b: "runOps ?ev [addA, addB] []
             = [sampleJob ''a'' (Every 1000 0) (Some 1000), sampleJob ''b'' (Every 1000 0) (Some 1000)]"
    by (simp add: runOps_def addA_def addB_def addJob_def sampleInput_def sampleJob_def
        computeNextRun_def computeNextRunAtMs_def Let_def)
  from unlocked_operations_serialize_only_without_overlap[of ?ev "[addA, addB]" "[]"] a b
  show ?thesis by metis
qed

end
